theory Spec2Isabelle
  imports Main "HOL-Library.AList"
begin

section \<open>The autonomous Clue-Less player (auto/automaton.py)\<close>

text \<open>
  A shallow embedding of class \<open>Player\<close>. Attributes written \<open>self._x\<close> in the source
  keep their name without the underscore (\<open>_cards\<close> is \<open>self_cards\<close>, \<open>_pad\<close> is
  \<open>pad\<close>). Every method takes the player and returns the player it leaves behind
  together with its result; an exception is the \<open>Inl\<close> branch of the result, so the
  state an exception leaves behind stays visible. Lists that a caller hands over are
  objects in a heap, so that a change made in place shows.
\<close>

subsection \<open>Errors\<close>

datatype error = IndexError | ValueError | KeyError | TypeError

subsection \<open>The tracking pad\<close>

text \<open>
  A player's sub-table is a data frame indexed by card name (\<open>axes[0]\<close>) with the
  columns \<open>c1\<close> (1 when the player is known to hold the card) and \<open>c2\<close> (a set of
  round tokens per card).
\<close>

record table =
  axes0 :: "string list"
  c1 :: "string \<Rightarrow> int"
  c2 :: "string \<Rightarrow> nat set"

text \<open>
  Reading or writing a cell by a label that is not in the index is a \<open>KeyError\<close>.
\<close>

definition c1_get :: "table \<Rightarrow> string \<Rightarrow> error + int" where
  "c1_get t card_name =
     (if card_name \<in> set (axes0 t) then Inr (c1 t card_name) else Inl KeyError)"

definition c1_set :: "table \<Rightarrow> string \<Rightarrow> int \<Rightarrow> error + table" where
  "c1_set t card_name v =
     (if card_name \<in> set (axes0 t) then Inr (t\<lparr>c1 := (c1 t)(card_name := v)\<rparr>)
      else Inl KeyError)"

definition c2_get :: "table \<Rightarrow> string \<Rightarrow> error + nat set" where
  "c2_get t card_name =
     (if card_name \<in> set (axes0 t) then Inr (c2 t card_name) else Inl KeyError)"

text \<open>
  The set object held in a \<open>c2\<close> cell is mutated in place (\<open>add\<close>, \<open>clear\<close>);
  \<open>c2_put\<close> stores the mutated set back into its cell.
\<close>

definition c2_put :: "table \<Rightarrow> string \<Rightarrow> nat set \<Rightarrow> table" where
  "c2_put t card_name s = t\<lparr>c2 := (c2 t)(card_name := s)\<rparr>"

text \<open>
  Modelled from the spec: class \<open>Pad\<close> (module \<open>auto.pad\<close>) is not among the sources.
  The spec gives its contract: \<open>getTable(playerIdentity) -> table\<close>, one table per
  observed player including self, and \<open>listTrackedPlayers()\<close>, an ordered collection of
  identities. The source reads two attributes of it, \<open>players_list\<close> and the dictionary
  \<open>player_pad\<close>, whose key order matters to the scan of \<open>_get_unknown_cards\<close>.
\<close>

record Pad =
  players_list :: "string list"
  player_pad :: "(string \<times> table) list"

text \<open>
  Modelled from the spec: \<open>Pad.get_player_table\<close> is \<open>getTable(playerIdentity) -> table\<close>,
  the lookup of the identity in \<open>player_pad\<close>; an identity that is not tracked is a
  \<open>KeyError\<close>.
\<close>

definition get_player_table :: "Pad \<Rightarrow> string \<Rightarrow> error + table" where
  "get_player_table pd pid =
     (case map_of (player_pad pd) pid of None \<Rightarrow> Inl KeyError | Some t \<Rightarrow> Inr t)"

text \<open>
  A table obtained from the pad is the pad's own object: a mutation of it is a
  mutation of the pad. \<open>put_player_table\<close> writes the mutated table back under its key.
\<close>

definition put_player_table :: "Pad \<Rightarrow> string \<Rightarrow> table \<Rightarrow> Pad" where
  "put_player_table pd pid t = pd\<lparr>player_pad := AList.update pid t (player_pad pd)\<rparr>"

subsection \<open>The player\<close>

record Player =
  own_player_count :: nat
  selected_suspect :: string
  location :: string
  prior_moves :: "string set"
  pad :: Pad
  self_cards :: "string list"
  player_id :: string

subsection \<open>Receiving the dealt cards\<close>

definition verify_card :: "Player \<Rightarrow> string \<Rightarrow> bool" where
  "verify_card p card_to_verify =
     (if card_to_verify \<in> set (self_cards p) then True else False)"

text \<open>The validation loop of \<open>receive_cards\<close>: the first card that is not verified raises.\<close>

fun verify_dealt :: "Player \<Rightarrow> string list \<Rightarrow> error + unit" where
  "verify_dealt p [] = Inr ()"
| "verify_dealt p (c # cs) =
     (if \<not> verify_card p c then Inl ValueError else verify_dealt p cs)"

text \<open>The loop of \<open>_mark_my_cards_on_pad\<close> over the player's own sub-table.\<close>

fun mark_cards :: "table \<Rightarrow> string list \<Rightarrow> (error + unit) \<times> table" where
  "mark_cards t [] = (Inr (), t)"
| "mark_cards t (c # cs) =
     (case c1_set t c 1 of
        Inl e \<Rightarrow> (Inl e, t)
      | Inr t' \<Rightarrow> mark_cards t' cs)"

definition mark_my_cards_on_pad :: "Player \<Rightarrow> string list \<Rightarrow> (error + unit) \<times> Player" where
  "mark_my_cards_on_pad p dealt_cards =
     (case get_player_table (pad p) (player_id p) of
        Inl e \<Rightarrow> (Inl e, p)
      | Inr player_tbl \<Rightarrow>
          (case mark_cards player_tbl dealt_cards of
             (r, tbl') \<Rightarrow> (r, p\<lparr>pad := put_player_table (pad p) (player_id p) tbl'\<rparr>)))"

definition receive_cards :: "Player \<Rightarrow> string list \<Rightarrow> (error + unit) \<times> Player" where
  "receive_cards p dealt_cards =
     (if \<not> (3 \<le> length dealt_cards \<and> length dealt_cards \<le> 6) then (Inl IndexError, p)
      else (case verify_dealt p dealt_cards of
              Inl e \<Rightarrow> (Inl e, p)
            | Inr _ \<Rightarrow> mark_my_cards_on_pad p dealt_cards))"

subsection \<open>Messages from the server\<close>

text \<open>
  A game state is a dictionary; a key the source tests with \<open>in\<close> or that only some
  message shapes carry is an optional field, named after the key. Reading an absent
  key is a \<open>KeyError\<close>.
\<close>

record Suggestion =
  to_player_key :: "string option"
  suggestion_cards_key :: "string list"

record Answer =
  from_player_key :: string
  has_card_key :: "bool option"
  card_key :: "string option"

text \<open>
  The list of cards a payload carries under \<open>cards\<close> is an object: \<open>pop\<close> changes a list
  in place, and the caller sees what happens to the list it handed over. Such lists
  live in a heap, a list of list objects; an object is named by its address, its
  position in the heap, and the addresses in use are those below the length of the
  heap. The key \<open>cards\<close> of a game state holds the address of its list.
\<close>

type_synonym heap = "string list list"

record Game_State =
  positions_key :: "(string \<times> string) list option"
  suggestion_key :: "Suggestion option"
  answer_key :: "Answer option"
  cards_key :: "nat option"

text \<open>What \<open>update\<close> returns: a card name or \<open>no_match\<close>, one of the two
  turn-completion dictionaries, or nothing (\<open>None\<close>).\<close>

datatype response =
    Answered string
  | Turn_Complete
  | Accusation string "string set"
  | No_Response

subsection \<open>Answering a suggestion\<close>

text \<open>
  \<open>cards[cards == 1]\<close> keeps the rows of the own \<open>c1\<close> column that hold 1, and
  \<open>card in\<close> it tests the row labels.
\<close>

fun answer_loop :: "table \<Rightarrow> string list \<Rightarrow> string" where
  "answer_loop t [] = ''no_match''"
| "answer_loop t (c # cs) =
     (if c \<in> set (axes0 t) \<and> c1 t c = 1 then c else answer_loop t cs)"

definition answer :: "Player \<Rightarrow> string list \<Rightarrow> (error + string) \<times> Player" where
  "answer p suggestion =
     (case get_player_table (pad p) (player_id p) of
        Inl e \<Rightarrow> (Inl e, p)
      | Inr t \<Rightarrow> (Inr (answer_loop t suggestion), p))"

subsection \<open>Accusation analysis\<close>

text \<open>
  The inner loop of \<open>_get_unknown_cards\<close> for one card: \<open>keys\<close> are the keys of
  \<open>player_pad\<close> still to visit, \<open>i\<close> the counter, \<open>acc\<close> the set
  \<open>unverified_cards\<close>. A cell equal to 1 breaks out of the loop; otherwise the
  counter is incremented and the card is added when the counter is 4.
\<close>

fun scan_players :: "Pad \<Rightarrow> string \<Rightarrow> string list \<Rightarrow> nat \<Rightarrow> string set \<Rightarrow> error + string set" where
  "scan_players pd c [] i acc = Inr acc"
| "scan_players pd c (key # keys) i acc =
     (case get_player_table pd key of
        Inl e \<Rightarrow> Inl e
      | Inr t \<Rightarrow>
          (case c1_get t c of
             Inl e \<Rightarrow> Inl e
           | Inr v \<Rightarrow>
               if v = 1 then Inr acc
               else scan_players pd c keys (i + 1)
                      (if i + 1 = 4 then insert c acc else acc)))"

fun scan_cards :: "Pad \<Rightarrow> string list \<Rightarrow> string set \<Rightarrow> error + string set" where
  "scan_cards pd [] acc = Inr acc"
| "scan_cards pd (c # cs) acc =
     (case scan_players pd c (map fst (player_pad pd)) 0 acc of
        Inl e \<Rightarrow> Inl e
      | Inr acc' \<Rightarrow> scan_cards pd cs acc')"

definition get_unknown_cards :: "Player \<Rightarrow> error + string set" where
  "get_unknown_cards p =
     (case get_player_table (pad p) (player_id p) of
        Inl e \<Rightarrow> Inl e
      | Inr t \<Rightarrow> scan_cards (pad p) (axes0 t) {})"

definition analyze_table_to_accuse :: "Player \<Rightarrow> error + string set option" where
  "analyze_table_to_accuse p =
     (case get_player_table (pad p) (player_id p) of
        Inl e \<Rightarrow> Inl e
      | Inr t \<Rightarrow>
          (case get_unknown_cards p of
             Inl e \<Rightarrow> Inl e
           | Inr unverified_cards \<Rightarrow>
               if card unverified_cards = 3 then Inr (Some unverified_cards) else Inr None))"

subsection \<open>Recording an answer\<close>

text \<open>
  \<open>xs.copy()\<close> for the list object at address \<open>a\<close>: a new object with the same
  elements, at the next free address.
\<close>

definition list_copy :: "heap \<Rightarrow> nat \<Rightarrow> nat \<times> heap" where
  "list_copy h a = (length h, h @ [h ! a])"

text \<open>
  \<open>xs.pop()\<close> for the list object at address \<open>a\<close>: an \<open>IndexError\<close> when it is empty,
  otherwise its last element, and the heap in which that object has lost it.
\<close>

definition list_pop :: "heap \<Rightarrow> nat \<Rightarrow> error + (string \<times> heap)" where
  "list_pop h a =
     (if h ! a = [] then Inl IndexError
      else Inr (last (h ! a), h[a := butlast (h ! a)]))"

text \<open>The loop of \<open>_clear_c2_cells\<close> over \<open>players_list\<close>.\<close>

fun clear_c2_loop :: "Pad \<Rightarrow> string \<Rightarrow> string list \<Rightarrow> (error + unit) \<times> Pad" where
  "clear_c2_loop pd card_provided [] = (Inr (), pd)"
| "clear_c2_loop pd card_provided (pl # pls) =
     (case get_player_table pd pl of
        Inl e \<Rightarrow> (Inl e, pd)
      | Inr tbl \<Rightarrow>
          (case c2_get tbl card_provided of
             Inl e \<Rightarrow> (Inl e, pd)
           | Inr _ \<Rightarrow>
               clear_c2_loop (put_player_table pd pl (c2_put tbl card_provided {}))
                 card_provided pls))"

definition clear_c2_cells :: "Player \<Rightarrow> string \<Rightarrow> (error + unit) \<times> Player" where
  "clear_c2_cells p card_provided =
     (case clear_c2_loop (pad p) card_provided (players_list (pad p)) of
        (r, pd') \<Rightarrow> (r, p\<lparr>pad := pd'\<rparr>))"

text \<open>
  The undirected branch of \<open>_mark_pad\<close>, on the responding player's table, from the
  three \<open>pop\<close>s on: \<open>suggestions\<close> is the address of the list they work on. The three
  cells are read first, then the new entry is added to each. \<open>new_entry\<close> is the
  token: the length of the union of the three cells plus 1.
\<close>

definition new_entry :: "nat set \<Rightarrow> nat set \<Rightarrow> nat set \<Rightarrow> nat" where
  "new_entry cell01 cell02 cell03 = card (cell01 \<union> (cell02 \<union> cell03)) + 1"

definition mark_has_card :: "table \<Rightarrow> heap \<Rightarrow> nat \<Rightarrow> (error + table) \<times> heap" where
  "mark_has_card tbl h suggestions =
     (case list_pop h suggestions of
        Inl e \<Rightarrow> (Inl e, h)
      | Inr (card01, h1) \<Rightarrow>
     (case list_pop h1 suggestions of
        Inl e \<Rightarrow> (Inl e, h1)
      | Inr (card02, h2) \<Rightarrow>
     (case list_pop h2 suggestions of
        Inl e \<Rightarrow> (Inl e, h2)
      | Inr (card03, h3) \<Rightarrow>
     (case c2_get tbl card01 of
        Inl e \<Rightarrow> (Inl e, h3)
      | Inr cell01 \<Rightarrow>
     (case c2_get tbl card02 of
        Inl e \<Rightarrow> (Inl e, h3)
      | Inr cell02 \<Rightarrow>
     (case c2_get tbl card03 of
        Inl e \<Rightarrow> (Inl e, h3)
      | Inr cell03 \<Rightarrow>
          (let entry = new_entry cell01 cell02 cell03;
               t1 = c2_put tbl card01 (insert entry (c2 tbl card01));
               t2 = c2_put t1 card02 (insert entry (c2 t1 card02));
               t3 = c2_put t2 card03 (insert entry (c2 t2 card03))
           in (Inr t3, h3))))))))"

text \<open>
  \<open>_mark_pad\<close> returns the accusation (or \<open>None\<close>) and leaves a player and a heap
  behind. In the undirected branch \<open>suggestions\<close> is the address \<open>copy\<close> returns for
  the payload's list of cards.
\<close>

definition mark_pad ::
  "Player \<Rightarrow> heap \<Rightarrow> Game_State \<Rightarrow> (error + string set option) \<times> Player \<times> heap" where
  "mark_pad p h game_state =
     (case answer_key game_state of
        None \<Rightarrow> (Inl KeyError, p, h)
      | Some ans \<Rightarrow>
     (let responding_player = from_player_key ans in
      case get_player_table (pad p) responding_player of
        Inl e \<Rightarrow> (Inl e, p, h)
      | Inr responding_player_tbl \<Rightarrow>
          if has_card_key ans = Some True then
            (case cards_key game_state of
               None \<Rightarrow> (Inl KeyError, p, h)
             | Some cards_ref \<Rightarrow>
                 (case list_copy h cards_ref of
                    (suggestions, h1) \<Rightarrow>
                      (case mark_has_card responding_player_tbl h1 suggestions of
                         (Inl e, h2) \<Rightarrow> (Inl e, p, h2)
                       | (Inr tbl', h2) \<Rightarrow>
                           (let p' = p\<lparr>pad := put_player_table (pad p) responding_player tbl'\<rparr>
                            in (analyze_table_to_accuse p', p', h2)))))
          else if has_card_key ans = Some False then
            (analyze_table_to_accuse p, p, h)
          else
            (case card_key ans of
               None \<Rightarrow> (Inl KeyError, p, h)
             | Some card_provided \<Rightarrow>
                 (case c1_set responding_player_tbl card_provided 1 of
                    Inl e \<Rightarrow> (Inl e, p, h)
                  | Inr tbl' \<Rightarrow>
                      (let p1 = p\<lparr>pad := put_player_table (pad p) responding_player tbl'\<rparr>
                       in case clear_c2_cells p1 card_provided of
                            (Inl e, p2) \<Rightarrow> (Inl e, p2, h)
                          | (Inr _, p2) \<Rightarrow> (analyze_table_to_accuse p2, p2, h))))))"

subsection \<open>The update dispatcher\<close>

definition update ::
  "Player \<Rightarrow> heap \<Rightarrow> Game_State \<Rightarrow> (error + response) \<times> Player \<times> heap" where
  "update p h game_state =
     (let addressed =
            (case suggestion_key game_state of
               None \<Rightarrow> None
             | Some suggestion \<Rightarrow>
                 if to_player_key suggestion = Some (player_id p) then Some suggestion
                 else None)
      in case addressed of
           Some suggestion \<Rightarrow>
             (case answer p (suggestion_cards_key suggestion) of
                (Inl e, p') \<Rightarrow> (Inl e, p', h)
              | (Inr c, p') \<Rightarrow> (Inr (Answered c), p', h))
         | None \<Rightarrow>
             (case answer_key game_state of
                Some _ \<Rightarrow>
                  (case mark_pad p h game_state of
                     (Inl e, p', h') \<Rightarrow> (Inl e, p', h')
                   | (Inr accusation, p', h') \<Rightarrow>
                       (case accusation of
                          None \<Rightarrow> (Inr Turn_Complete, p', h')
                        | Some cs \<Rightarrow>
                            if cs = {} then (Inr Turn_Complete, p', h')
                            else (Inr (Accusation (player_id p) cs), p', h')))
              | None \<Rightarrow> (Inr No_Response, p, h)))"

subsection \<open>Move selection\<close>

text \<open>
  Class \<open>Board\<close> (module \<open>auto.board\<close>) is not among the sources; the board is a
  parameter: \<open>neighborhood board l n\<close> is the set \<open>neighborhood(l, n)\<close> returns.
  Two library calls are not determined by their arguments and are parameters too:
  \<open>sample s k\<close> is what \<open>random.sample(s, k)\<close> does on the set \<open>s\<close>, the list it
  returns or the exception it raises, and \<open>iter s\<close> lists the set \<open>s\<close> in the order
  a \<open>for\<close> loop visits it.
\<close>

record Board =
  neighborhood :: "string \<Rightarrow> nat \<Rightarrow> string set"

definition set_location :: "Player \<Rightarrow> Game_State \<Rightarrow> (error + unit) \<times> Player" where
  "set_location p game_state =
     (case positions_key game_state of
        None \<Rightarrow> (Inl KeyError, p)
      | Some positions \<Rightarrow>
          (case map_of positions (player_id p) of
             None \<Rightarrow> (Inl KeyError, p)
           | Some l \<Rightarrow> (Inr (), p\<lparr>location := l, prior_moves := insert l (prior_moves p)\<rparr>)))"

definition next_moves :: "Board \<Rightarrow> string \<Rightarrow> string set" where
  "next_moves board current_location = neighborhood board current_location 1"

definition filter_moves ::
  "Board \<Rightarrow> (string set \<Rightarrow> nat \<Rightarrow> error + string list) \<Rightarrow> Player \<Rightarrow> Game_State
     \<Rightarrow> (error + string set) \<times> Player" where
  "filter_moves board sample p game_state =
     (case set_location p game_state of
        (Inl e, p') \<Rightarrow> (Inl e, p')
      | (Inr _, p') \<Rightarrow>
          (let nexts = next_moves board (location p');
               priors = prior_moves p';
               occupied_locations =
                 (case positions_key game_state of None \<Rightarrow> {} | Some ps \<Rightarrow> snd ` set ps);
               available_moves = nexts - occupied_locations;
               available_moves = available_moves - priors
           in if available_moves = {} then
                (let possible_moves = nexts - occupied_locations
                 in if possible_moves \<noteq> {} then
                      (case sample possible_moves 1 of
                         Inl e \<Rightarrow> (Inl e, p')
                       | Inr pick_me \<Rightarrow>
                           (case pick_me of
                              [] \<Rightarrow> (Inl IndexError, p')
                            | pick # _ \<Rightarrow> (Inr (insert pick available_moves), p')))
                    else (Inr available_moves, p'))
              else (Inr available_moves, p')))"

text \<open>The \<open>for\<close> loop of \<open>_make_move\<close> over the moves in iteration order.\<close>

primrec make_move_loop :: "Player \<Rightarrow> string list \<Rightarrow> string \<times> Player" where
  "make_move_loop p [] = ([], p)"
| "make_move_loop p (m # ms) =
     (if m \<notin> prior_moves p then (m, p\<lparr>prior_moves := insert m (prior_moves p)\<rparr>)
      else if m \<in> prior_moves p then (m, p)
      else make_move_loop p ms)"

definition make_move :: "(string set \<Rightarrow> string list) \<Rightarrow> Player \<Rightarrow> string set \<Rightarrow> string \<times> Player" where
  "make_move iter p available_moves = make_move_loop p (iter available_moves)"

definition take_turn ::
  "Board \<Rightarrow> (string set \<Rightarrow> nat \<Rightarrow> error + string list) \<Rightarrow> (string set \<Rightarrow> string list)
     \<Rightarrow> Player \<Rightarrow> Game_State \<Rightarrow> (error + string) \<times> Player" where
  "take_turn board sample iter p game_state =
     (case filter_moves board sample p game_state of
        (Inl e, p') \<Rightarrow> (Inl e, p')
      | (Inr available_moves, p') \<Rightarrow>
          (case make_move iter p' available_moves of
             (turn_response, p'') \<Rightarrow> (Inr turn_response, p'')))"

text \<open>The unoccupied 1-hop neighbours of a location, and the unvisited ones among them.\<close>

definition unoccupied :: "Board \<Rightarrow> string \<Rightarrow> (string \<times> string) list \<Rightarrow> string set" where
  "unoccupied board l ps = neighborhood board l 1 - snd ` set ps"

definition unvisited :: "Board \<Rightarrow> Player \<Rightarrow> string \<Rightarrow> (string \<times> string) list \<Rightarrow> string set" where
  "unvisited board p l ps = unoccupied board l ps - insert l (prior_moves p)"

subsection \<open>Construction\<close>

text \<open>
  \<open>_player_count\<close> is an attribute of the class. \<open>self._player_count += 1\<close> reads it
  through the instance and assigns the sum to an attribute of the instance
  (\<open>own_player_count\<close>); the attribute of the class is not assigned anywhere.
  \<open>choice\<close> is \<open>random.choice\<close> on a non-empty list, \<open>new_pad n\<close> the object \<open>Pad(n)\<close>.
\<close>

record Player_class =
  player_count :: nat

definition get_player :: "(string list \<Rightarrow> string) \<Rightarrow> string list \<Rightarrow> error + string" where
  "get_player choice available_players_list =
     (if available_players_list = [] then Inl IndexError
      else Inr (choice available_players_list))"

definition starting_positions :: "(string \<times> string) list" where
  "starting_positions =
     [(''Scarlet'', ''Hallway_02''), (''Mustard'', ''Hallway_03''), (''White'', ''Hallway_05''),
      (''Green'', ''Hallway_06''), (''Peacock'', ''Hallway_07''), (''Plum'', ''Hallway_08'')]"

definition get_starting_location :: "string \<Rightarrow> error + string" where
  "get_starting_location selected_player =
     (case map_of starting_positions selected_player of
        None \<Rightarrow> Inl KeyError
      | Some l \<Rightarrow> Inr l)"

definition init ::
  "Player_class \<Rightarrow> (string list \<Rightarrow> string) \<Rightarrow> (nat \<Rightarrow> Pad) \<Rightarrow> string \<Rightarrow> string list \<Rightarrow> nat
     \<Rightarrow> (error + Player) \<times> Player_class" where
  "init cls choice new_pad pid available_suspects_list total_players =
     (if player_count cls \<le> 5 then
        (case get_player choice available_suspects_list of
           Inl e \<Rightarrow> (Inl e, cls)
         | Inr suspect \<Rightarrow>
             (case get_starting_location suspect of
                Inl e \<Rightarrow> (Inl e, cls)
              | Inr l \<Rightarrow>
                  (case get_player_table (new_pad total_players) pid of
                     Inl e \<Rightarrow> (Inl e, cls)
                   | Inr t \<Rightarrow>
                       (Inr \<lparr>own_player_count = player_count cls + 1,
                             selected_suspect = suspect,
                             location = l,
                             prior_moves = {l},
                             pad = new_pad total_players,
                             self_cards = axes0 t,
                             player_id = pid\<rparr>, cls))))
      else (Inl IndexError, cls))"

text \<open>
  A run of constructions, each on the class as the one before left it; the results
  are listed in order.
\<close>

fun construct_all ::
  "Player_class \<Rightarrow> (string list \<Rightarrow> string) \<Rightarrow> (nat \<Rightarrow> Pad) \<Rightarrow> (string \<times> string list \<times> nat) list
     \<Rightarrow> (error + Player) list \<times> Player_class" where
  "construct_all cls choice new_pad [] = ([], cls)"
| "construct_all cls choice new_pad ((pid, suspects, n) # rest) =
     (case init cls choice new_pad pid suspects n of
        (r, cls') \<Rightarrow>
          (case construct_all cls' choice new_pad rest of
             (rs, cls'') \<Rightarrow> (r # rs, cls'')))"

subsection \<open>Well-formed pads and the unknown cards of the specification\<close>

text \<open>
  What the source takes for granted of the pad of player \<open>pid\<close>: it tracks the player
  itself, \<open>players_list\<close> names the keys of \<open>player_pad\<close>, and all sub-tables are
  indexed by the same cards.
\<close>

definition pad_ok :: "string \<Rightarrow> Pad \<Rightarrow> bool" where
  "pad_ok pid pd =
     (pid \<in> set (map fst (player_pad pd)) \<and>
      set (players_list pd) = set (map fst (player_pad pd)) \<and>
      (\<forall>k \<in> set (map fst (player_pad pd)). \<forall>k' \<in> set (map fst (player_pad pd)).
         \<forall>t t'. get_player_table pd k = Inr t \<longrightarrow> get_player_table pd k' = Inr t' \<longrightarrow>
           set (axes0 t) = set (axes0 t')))"

text \<open>
  The unknown cards as the specification words them: the cards of the deck for which
  no tracked player's column 1 shows 1.
\<close>

definition spec_unknown_cards :: "Pad \<Rightarrow> string list \<Rightarrow> string set" where
  "spec_unknown_cards pd deck =
     set (filter (\<lambda>c. list_all (\<lambda>(k, t). c1 t c \<noteq> 1) (player_pad pd)) deck)"

subsection \<open>Runs of updates and observations of the pad\<close>

text \<open>A run of \<open>update\<close> calls on one player, each on the player and the heap the call
  before left; the responses are dropped.\<close>

fun run_updates :: "Player \<Rightarrow> heap \<Rightarrow> Game_State list \<Rightarrow> Player \<times> heap" where
  "run_updates p h [] = (p, h)"
| "run_updates p h (g # gs) =
     (case update p h g of (r, p', h') \<Rightarrow> run_updates p' h' gs)"

text \<open>The column-2 cell of tracked player \<open>q\<close> for card \<open>c\<close> on the pad of \<open>p\<close>
  (empty when \<open>q\<close> is not tracked).\<close>

definition c2_of :: "Player \<Rightarrow> string \<Rightarrow> string \<Rightarrow> nat set" where
  "c2_of p q c = (case get_player_table (pad p) q of Inl _ \<Rightarrow> {} | Inr t \<Rightarrow> c2 t c)"

text \<open>The column-1 cell of tracked player \<open>q\<close> for card \<open>c\<close> on the pad of \<open>p\<close>
  (0 when \<open>q\<close> is not tracked).\<close>

definition c1_of :: "Player \<Rightarrow> string \<Rightarrow> string \<Rightarrow> int" where
  "c1_of p q c = (case get_player_table (pad p) q of Inl _ \<Rightarrow> 0 | Inr t \<Rightarrow> c1 t c)"

subsection \<open>Concrete boards, pads, players and messages\<close>

text \<open>The deck: the six suspects, nine rooms and six weapons the source names.\<close>

definition clue_deck :: "string list" where
  "clue_deck =
     [''Mustard'', ''Scarlet'', ''White'', ''Plum'', ''Green'', ''Peacock'',
      ''Study'', ''Hall'', ''Lounge'', ''Library'', ''Billiard'', ''Dining'',
      ''Conservatory'', ''Ballroom'', ''Kitchen'',
      ''Knife'', ''Wrench'', ''Revolver'', ''Pipe'', ''Rope'', ''Candlestick'']"

definition blank_table :: table where
  "blank_table = \<lparr>axes0 = clue_deck, c1 = (\<lambda>_. 0), c2 = (\<lambda>_. {})\<rparr>"

definition blank_pad :: "string list \<Rightarrow> Pad" where
  "blank_pad ids = \<lparr>players_list = ids, player_pad = map (\<lambda>k. (k, blank_table)) ids\<rparr>"

definition seats :: "string list" where
  "seats = [''p01'', ''p02'', ''p03'', ''p04'', ''p05'', ''p06'']"

definition seated_pad :: "nat \<Rightarrow> Pad" where
  "seated_pad n = blank_pad (take n seats)"

text \<open>Player \<open>p01\<close> of a three-player game, no card marked yet.\<close>

definition scarlet :: Player where
  "scarlet =
     \<lparr>own_player_count = 1, selected_suspect = ''Scarlet'', location = ''Hallway_02'',
      prior_moves = {''Hallway_02''}, pad = blank_pad [''p01'', ''p02'', ''p03''],
      self_cards = clue_deck, player_id = ''p01''\<rparr>"

text \<open>The same player after it has been to the hall and the lounge.\<close>

definition returning :: Player where
  "returning = scarlet\<lparr>prior_moves := {''Hallway_02'', ''Hall'', ''Lounge''}\<rparr>"

text \<open>The messages of the source's examples; \<open>a\<close> is the address of the list of cards.\<close>

definition has_card_signal :: "string \<Rightarrow> nat \<Rightarrow> Game_State" where
  "has_card_signal from a =
     \<lparr>positions_key = None, suggestion_key = None,
      answer_key = Some \<lparr>from_player_key = from, has_card_key = Some True, card_key = None\<rparr>,
      cards_key = Some a\<rparr>"

definition no_card_signal :: "string \<Rightarrow> Game_State" where
  "no_card_signal from =
     \<lparr>positions_key = None, suggestion_key = None,
      answer_key = Some \<lparr>from_player_key = from, has_card_key = Some False, card_key = None\<rparr>,
      cards_key = None\<rparr>"

definition reveal :: "string \<Rightarrow> string \<Rightarrow> Game_State" where
  "reveal from c =
     \<lparr>positions_key = None, suggestion_key = None,
      answer_key = Some \<lparr>from_player_key = from, has_card_key = None, card_key = Some c\<rparr>,
      cards_key = None\<rparr>"

text \<open>An answer that names a card and carries a \<open>has_card\<close> flag as well.\<close>

definition flagged_reveal :: "string \<Rightarrow> bool \<Rightarrow> string \<Rightarrow> Game_State" where
  "flagged_reveal from flag c =
     \<lparr>positions_key = None, suggestion_key = None,
      answer_key = Some \<lparr>from_player_key = from, has_card_key = Some flag, card_key = Some c\<rparr>,
      cards_key = None\<rparr>"

definition question :: "string \<Rightarrow> string list \<Rightarrow> Game_State" where
  "question to cs =
     \<lparr>positions_key = None,
      suggestion_key = Some \<lparr>to_player_key = Some to, suggestion_cards_key = cs\<rparr>,
      answer_key = None, cards_key = None\<rparr>"

definition turn_request :: "(string \<times> string) list \<Rightarrow> Game_State" where
  "turn_request ps =
     \<lparr>positions_key = Some ps, suggestion_key = None, answer_key = None, cards_key = None\<rparr>"

text \<open>
  A five-player pad late in a game: \<open>p01\<close> is known to hold seventeen cards, \<open>p05\<close>
  is known to hold the rope, and no table shows 1 for the wrench, Plum or the kitchen.
\<close>

definition late_table :: table where
  "late_table =
     blank_table\<lparr>c1 := (\<lambda>c. if c \<in> {''Wrench'', ''Plum'', ''Kitchen'', ''Rope''} then 0 else 1)\<rparr>"

definition late_pad :: Pad where
  "late_pad =
     \<lparr>players_list = [''p01'', ''p02'', ''p03'', ''p04'', ''p05''],
      player_pad =
        [(''p01'', late_table),
         (''p02'', blank_table), (''p03'', blank_table), (''p04'', blank_table),
         (''p05'', blank_table\<lparr>c1 := (\<lambda>c. if c = ''Rope'' then 1 else 0)\<rparr>)]\<rparr>"

definition late_player :: Player where
  "late_player =
     \<lparr>own_player_count = 1, selected_suspect = ''Scarlet'', location = ''Hallway_02'',
      prior_moves = {''Hallway_02''}, pad = late_pad,
      self_cards = clue_deck, player_id = ''p01''\<rparr>"

text \<open>The same knowledge in a three-player game: \<open>p02\<close> is known to hold the rope.\<close>

definition small_pad :: Pad where
  "small_pad =
     \<lparr>players_list = [''p01'', ''p02'', ''p03''],
      player_pad =
        [(''p01'', late_table),
         (''p02'', blank_table\<lparr>c1 := (\<lambda>c. if c = ''Rope'' then 1 else 0)\<rparr>),
         (''p03'', blank_table)]\<rparr>"

definition small_player :: Player where
  "small_player = late_player\<lparr>pad := small_pad\<rparr>"

text \<open>
  Four undirected signals of \<open>p02\<close>, for four different suggestions, and the heap
  that holds their lists of cards.
\<close>

definition signal_heap :: heap where
  "signal_heap =
     [[''Mustard'', ''Rope'', ''Study''],
      [''Mustard'', ''Knife'', ''Hall''],
      [''Rope'', ''Wrench'', ''Lounge''],
      [''Knife'', ''Wrench'', ''Library'']]"

definition four_signals :: "Game_State list" where
  "four_signals =
     [has_card_signal ''p02'' 0, has_card_signal ''p02'' 1,
      has_card_signal ''p02'' 2, has_card_signal ''p02'' 3]"

text \<open>
  A three-player pad with notes in column 2: \<open>p02\<close> has signalled once for Mustard,
  the rope and the study, \<open>p03\<close> once for the rope, the knife and the hall.
\<close>

definition noted_pad :: Pad where
  "noted_pad =
     \<lparr>players_list = [''p01'', ''p02'', ''p03''],
      player_pad =
        [(''p01'', blank_table),
         (''p02'', blank_table\<lparr>c2 := (\<lambda>c. if c \<in> {''Mustard'', ''Rope'', ''Study''}
                                          then {1} else {})\<rparr>),
         (''p03'', blank_table\<lparr>c2 := (\<lambda>c. if c \<in> {''Rope'', ''Knife'', ''Hall''}
                                          then {1} else {})\<rparr>)]\<rparr>"

definition noted_player :: Player where
  "noted_player = scarlet\<lparr>pad := noted_pad\<rparr>"

text \<open>Six constructions in a row, each choosing among the suspects still free.\<close>

definition six_constructions :: "(string \<times> string list \<times> nat) list" where
  "six_constructions =
     [(''p01'', [''Scarlet'', ''Mustard'', ''White'', ''Green'', ''Peacock'', ''Plum''], 6),
      (''p02'', [''Mustard'', ''White'', ''Green'', ''Peacock'', ''Plum''], 6),
      (''p03'', [''White'', ''Green'', ''Peacock'', ''Plum''], 6),
      (''p04'', [''Green'', ''Peacock'', ''Plum''], 6),
      (''p05'', [''Peacock'', ''Plum''], 6),
      (''p06'', [''Plum''], 6)]"

text \<open>A corner of a board: from the hallway one reaches the hall and the lounge.\<close>

definition corner_board :: Board where
  "corner_board =
     \<lparr>neighborhood =
        (\<lambda>l n. if l = ''Hallway_02'' \<and> n = 1 then {''Hall'', ''Lounge''} else {})\<rparr>"

definition corner_iter :: "string set \<Rightarrow> string list" where
  "corner_iter s = filter (\<lambda>x. x \<in> s) [''Hall'', ''Lounge'']"

text \<open>
  Two behaviours of \<open>random.sample\<close> on a set. Up to Python 3.10 the call returns a list
  of \<open>k\<close> elements of the set (\<open>corner_sample\<close> takes the first ones). From Python 3.11
  on the population must be a sequence, and the call raises \<open>TypeError\<close> for every set
  (\<open>sample_of_set\<close>).
\<close>

definition corner_sample :: "string set \<Rightarrow> nat \<Rightarrow> error + string list" where
  "corner_sample s k = Inr (take k (corner_iter s))"

definition sample_of_set :: "string set \<Rightarrow> nat \<Rightarrow> error + string list" where
  "sample_of_set s k = Inl TypeError"

section \<open>Properties\<close>

subsection \<open>Reading and writing the pad\<close>

lemma get_put_same: "get_player_table (put_player_table pd k t) k = Inr t"
  by (simp add: get_player_table_def put_player_table_def update_conv')

lemma get_put_other:
  "k' \<noteq> k \<Longrightarrow> get_player_table (put_player_table pd k t) k' = get_player_table pd k'"
  by (simp add: get_player_table_def put_player_table_def update_conv')

lemma get_Inr_key: "get_player_table pd k = Inr t \<Longrightarrow> k \<in> set (map fst (player_pad pd))"
  by (auto simp: get_player_table_def split: option.splits dest: map_of_SomeD intro: rev_image_eqI)

lemma key_get_Inr: "k \<in> set (map fst (player_pad pd)) \<Longrightarrow> \<exists>t. get_player_table pd k = Inr t"
  by (cases "map_of (player_pad pd) k") (auto simp: get_player_table_def map_of_eq_None_iff)

lemma keys_put:
  "k \<in> set (map fst (player_pad pd)) \<Longrightarrow>
   map fst (player_pad (put_player_table pd k t)) = map fst (player_pad pd)"
  by (simp add: put_player_table_def update_keys)

lemma players_list_put: "players_list (put_player_table pd k t) = players_list pd"
  by (simp add: put_player_table_def)

lemma c2_put_simps:
  "axes0 (c2_put t c s) = axes0 t"
  "c1 (c2_put t c s) = c1 t"
  "c2 (c2_put t c s) = (c2 t)(c := s)"
  by (simp_all add: c2_put_def)

lemma c2_put_idem: "c2_put (c2_put t c s) c s = c2_put t c s"
  by (simp add: c2_put_def)

lemma get_blank_pad:
  "get_player_table (blank_pad ids) k = (if k \<in> set ids then Inr blank_table else Inl KeyError)"
proof (cases "map_of (map (\<lambda>k. (k, blank_table)) ids) k")
  case None
  then have "k \<notin> set ids" by (auto simp: map_of_eq_None_iff image_image)
  with None show ?thesis by (simp add: get_player_table_def blank_pad_def)
next
  case (Some t)
  then have "(k, t) \<in> set (map (\<lambda>k. (k, blank_table)) ids)" by (rule map_of_SomeD)
  then have "k \<in> set ids \<and> t = blank_table" by auto
  with Some show ?thesis by (simp add: get_player_table_def blank_pad_def)
qed

lemma pad_ok_blank: "pid \<in> set ids \<Longrightarrow> pad_ok pid (blank_pad ids)"
  unfolding pad_ok_def get_blank_pad
  by (auto simp: blank_pad_def image_image split: if_splits)

subsection \<open>Receiving the dealt cards\<close>

lemma verify_dealt_eq:
  "verify_dealt p cs = (if set cs \<subseteq> set (self_cards p) then Inr () else Inl ValueError)"
  by (induction cs) (auto simp: verify_card_def)

lemma mark_cards_eq:
  "set cs \<subseteq> set (axes0 t) \<Longrightarrow>
   mark_cards t cs = (Inr (), t\<lparr>c1 := (\<lambda>c. if c \<in> set cs then 1 else c1 t c)\<rparr>)"
proof (induction cs arbitrary: t)
  case Nil
  then show ?case by simp
next
  case (Cons a cs)
  then show ?case by (auto simp: c1_set_def fun_eq_iff)
qed

text \<open>
  Claim C6: \<open>receive_cards\<close> raises \<open>IndexError\<close> (the invalid hand size) when the
  number of dealt cards is outside 3..6, and \<open>ValueError\<close> (the unrecognized card) when
  the size is in range and some dealt card is not among the player's cards; in both
  cases the player, and with it the whole tracking pad, is left exactly as it was.
\<close>

theorem receive_cards_rejects:
  "(\<not> (3 \<le> length dealt \<and> length dealt \<le> 6) \<longrightarrow>
      receive_cards p dealt = (Inl IndexError, p)) \<and>
   (3 \<le> length dealt \<and> length dealt \<le> 6 \<and> \<not> set dealt \<subseteq> set (self_cards p) \<longrightarrow>
      receive_cards p dealt = (Inl ValueError, p))"
  by (simp add: receive_cards_def verify_dealt_eq)

theorem receive_cards_rejects_witness:
  "\<not> (3 \<le> length (replicate 7 ''Rope'') \<and> length (replicate 7 ''Rope'') \<le> 6) \<and>
   receive_cards scarlet (replicate 7 ''Rope'') = (Inl IndexError, scarlet) \<and>
   (3 \<le> length [''Mustard'', ''Rope'', ''Sword''] \<and> length [''Mustard'', ''Rope'', ''Sword''] \<le> 6 \<and>
    \<not> set [''Mustard'', ''Rope'', ''Sword''] \<subseteq> set (self_cards scarlet)) \<and>
   receive_cards scarlet [''Mustard'', ''Rope'', ''Sword''] = (Inl ValueError, scarlet)"
proof -
  have h1: "\<not> (3 \<le> length (replicate 7 ''Rope'') \<and> length (replicate 7 ''Rope'') \<le> 6)"
    by simp
  have h2: "3 \<le> length [''Mustard'', ''Rope'', ''Sword''] \<and>
            length [''Mustard'', ''Rope'', ''Sword''] \<le> 6 \<and>
            \<not> set [''Mustard'', ''Rope'', ''Sword''] \<subseteq> set (self_cards scarlet)"
    by (simp add: scarlet_def clue_deck_def)
  have r1: "receive_cards scarlet (replicate 7 ''Rope'') = (Inl IndexError, scarlet)"
    using h1 receive_cards_rejects[of "replicate 7 ''Rope''" scarlet] by blast
  have r2: "receive_cards scarlet [''Mustard'', ''Rope'', ''Sword''] = (Inl ValueError, scarlet)"
    using h2 receive_cards_rejects[of "[''Mustard'', ''Rope'', ''Sword'']" scarlet] by blast
  show ?thesis by (intro conjI h1 r1 h2 r2)
qed

text \<open>
  Claim C7: for a valid hand (3 to 6 cards, all among the player's cards) \<open>receive_cards\<close>
  succeeds; afterwards column 1 of the player's own sub-table is 1 for the dealt cards
  and as before for every other card, column 2 and the index of that table are as
  before, every other player's table is as before, and nothing else of the player
  changed. (\<open>t\<close> is the own sub-table before the call; the player's cards are the index
  of that table, as the constructor sets them.)
\<close>

theorem receive_cards_marks:
  assumes "3 \<le> length dealt" and "length dealt \<le> 6"
    and "set dealt \<subseteq> set (self_cards p)"
    and "get_player_table (pad p) (player_id p) = Inr t"
    and "set (self_cards p) \<subseteq> set (axes0 t)"
  shows "\<exists>p' t'. receive_cards p dealt = (Inr (), p') \<and>
           get_player_table (pad p') (player_id p) = Inr t' \<and>
           (\<forall>c. c1 t' c = (if c \<in> set dealt then 1 else c1 t c)) \<and>
           c2 t' = c2 t \<and> axes0 t' = axes0 t \<and>
           (\<forall>q. q \<noteq> player_id p \<longrightarrow> get_player_table (pad p') q = get_player_table (pad p) q) \<and>
           map fst (player_pad (pad p')) = map fst (player_pad (pad p)) \<and>
           players_list (pad p') = players_list (pad p) \<and>
           p' = p\<lparr>pad := pad p'\<rparr>"
proof -
  have sub: "set dealt \<subseteq> set (axes0 t)" using assms by blast
  show ?thesis
    using assms get_Inr_key[OF assms(4)]
    by (simp add: receive_cards_def verify_dealt_eq mark_my_cards_on_pad_def mark_cards_eq[OF sub]
        get_put_same get_put_other keys_put players_list_put)
qed

theorem receive_cards_marks_witness:
  "3 \<le> length [''Mustard'', ''Rope'', ''Study''] \<and> length [''Mustard'', ''Rope'', ''Study''] \<le> 6 \<and>
   set [''Mustard'', ''Rope'', ''Study''] \<subseteq> set (self_cards scarlet) \<and>
   get_player_table (pad scarlet) (player_id scarlet) = Inr blank_table \<and>
   set (self_cards scarlet) \<subseteq> set (axes0 blank_table) \<and>
   (\<exists>p' t'. receive_cards scarlet [''Mustard'', ''Rope'', ''Study''] = (Inr (), p') \<and>
      get_player_table (pad p') ''p01'' = Inr t' \<and>
      c1 t' ''Rope'' = 1 \<and> c1 t' ''Knife'' = 0 \<and>
      get_player_table (pad p') ''p02'' = Inr blank_table)"
proof -
  have h1: "3 \<le> length [''Mustard'', ''Rope'', ''Study'']" by simp
  have h2: "length [''Mustard'', ''Rope'', ''Study''] \<le> 6" by simp
  have h3: "set [''Mustard'', ''Rope'', ''Study''] \<subseteq> set (self_cards scarlet)"
    by (simp add: scarlet_def clue_deck_def)
  have h4: "get_player_table (pad scarlet) (player_id scarlet) = Inr blank_table"
    by (simp add: scarlet_def get_blank_pad)
  have h5: "set (self_cards scarlet) \<subseteq> set (axes0 blank_table)"
    by (simp add: scarlet_def blank_table_def)
  have id: "player_id scarlet = ''p01''" by (simp add: scarlet_def)
  have p02: "get_player_table (pad scarlet) ''p02'' = Inr blank_table"
    by (simp add: scarlet_def get_blank_pad)
  from receive_cards_marks[OF h1 h2 h3 h4 h5] obtain p' t' where r:
    "receive_cards scarlet [''Mustard'', ''Rope'', ''Study''] = (Inr (), p')"
    "get_player_table (pad p') (player_id scarlet) = Inr t'"
    "\<forall>c. c1 t' c = (if c \<in> set [''Mustard'', ''Rope'', ''Study''] then 1 else c1 blank_table c)"
    "\<forall>q. q \<noteq> player_id scarlet \<longrightarrow> get_player_table (pad p') q = get_player_table (pad scarlet) q"
    by blast
  have "c1 t' ''Rope'' = 1" using r(3) by simp
  moreover have "c1 t' ''Knife'' = 0" using r(3) by (simp add: blank_table_def)
  moreover have "get_player_table (pad p') ''p02'' = Inr blank_table"
    using r(4) p02 by (simp add: id)
  ultimately have "\<exists>p' t'. receive_cards scarlet [''Mustard'', ''Rope'', ''Study''] = (Inr (), p') \<and>
      get_player_table (pad p') ''p01'' = Inr t' \<and>
      c1 t' ''Rope'' = 1 \<and> c1 t' ''Knife'' = 0 \<and>
      get_player_table (pad p') ''p02'' = Inr blank_table"
    using r(1,2) id by auto
  with h1 h2 h3 h4 h5 show ?thesis by blast
qed

subsection \<open>Answering a suggestion\<close>

lemma answer_loop_find:
  "answer_loop t s =
     (case find (\<lambda>c. c \<in> set (axes0 t) \<and> c1 t c = 1) s of None \<Rightarrow> ''no_match'' | Some c \<Rightarrow> c)"
  by (induction s) auto

text \<open>
  Claim C5: \<open>_answer\<close> returns the first card of the suggestion, in the order given,
  that the player's own sub-table marks with 1 in column 1, and \<open>no_match\<close> when there
  is none; the player it leaves behind is the player it was called on. The same holds
  through \<open>update\<close> for a suggestion addressed to this player, which also leaves the
  heap as it was.
\<close>

theorem answer_first_marked:
  assumes "get_player_table (pad p) (player_id p) = Inr t"
  shows "answer p s =
           (Inr (case find (\<lambda>c. c \<in> set (axes0 t) \<and> c1 t c = 1) s of
                   None \<Rightarrow> ''no_match'' | Some c \<Rightarrow> c), p) \<and>
         (suggestion_key gs = Some sg \<and> to_player_key sg = Some (player_id p) \<and>
          suggestion_cards_key sg = s \<longrightarrow>
            update p h gs =
              (Inr (Answered (case find (\<lambda>c. c \<in> set (axes0 t) \<and> c1 t c = 1) s of
                                None \<Rightarrow> ''no_match'' | Some c \<Rightarrow> c)), p, h))"
  using assms by (simp add: answer_def update_def answer_loop_find)

theorem answer_first_marked_witness:
  "get_player_table (pad late_player) (player_id late_player) = Inr late_table \<and>
   answer late_player [''Plum'', ''Rope'', ''Study''] = (Inr ''Study'', late_player) \<and>
   answer late_player [''Plum'', ''Rope'', ''Wrench''] = (Inr ''no_match'', late_player) \<and>
   update late_player [] (question ''p01'' [''Rope'', ''Knife'', ''Study'']) =
     (Inr (Answered ''Knife''), late_player, [])"
proof -
  have h: "get_player_table (pad late_player) (player_id late_player) = Inr late_table"
    by (simp add: late_player_def late_pad_def get_player_table_def)
  have ax: "axes0 late_table = clue_deck" by (simp add: late_table_def blank_table_def)
  have a1: "answer late_player [''Plum'', ''Rope'', ''Study''] = (Inr ''Study'', late_player)"
    using answer_first_marked[OF h, of "[''Plum'', ''Rope'', ''Study'']"]
    by (simp add: ax clue_deck_def) (simp add: late_table_def)
  have a2: "answer late_player [''Plum'', ''Rope'', ''Wrench''] = (Inr ''no_match'', late_player)"
    using answer_first_marked[OF h, of "[''Plum'', ''Rope'', ''Wrench'']"]
    by (simp add: ax clue_deck_def) (simp add: late_table_def)
  have q: "suggestion_key (question ''p01'' [''Rope'', ''Knife'', ''Study'']) =
             Some \<lparr>to_player_key = Some ''p01'', suggestion_cards_key = [''Rope'', ''Knife'', ''Study'']\<rparr>"
    by (simp add: question_def)
  have a3: "update late_player [] (question ''p01'' [''Rope'', ''Knife'', ''Study'']) =
     (Inr (Answered ''Knife''), late_player, [])"
    using answer_first_marked[OF h, of "[''Rope'', ''Knife'', ''Study'']"
        "question ''p01'' [''Rope'', ''Knife'', ''Study'']"
        "\<lparr>to_player_key = Some ''p01'', suggestion_cards_key = [''Rope'', ''Knife'', ''Study'']\<rparr>" "[]"]
    by (simp add: q ax clue_deck_def late_player_def) (simp add: late_table_def)
  show ?thesis by (intro conjI h a1 a2 a3)
qed

subsection \<open>Move selection\<close>

lemma make_move_loop_hd:
  "make_move_loop p ms =
     (case ms of [] \<Rightarrow> ([], p) | m # _ \<Rightarrow> (m, p\<lparr>prior_moves := insert m (prior_moves p)\<rparr>))"
  by (cases ms) (auto simp: insert_absorb)

lemma filter_moves_eq:
  assumes "positions_key gs = Some ps" and "map_of ps (player_id p) = Some l"
  shows "filter_moves board sample p gs =
     (if unvisited board p l ps = {} then
        (if unoccupied board l ps \<noteq> {} then
           (case sample (unoccupied board l ps) 1 of
              Inl e \<Rightarrow> (Inl e, p\<lparr>location := l, prior_moves := insert l (prior_moves p)\<rparr>)
            | Inr pick_me \<Rightarrow>
                (case pick_me of
                   [] \<Rightarrow> (Inl IndexError, p\<lparr>location := l, prior_moves := insert l (prior_moves p)\<rparr>)
                 | pick # _ \<Rightarrow>
                     (Inr {pick}, p\<lparr>location := l, prior_moves := insert l (prior_moves p)\<rparr>)))
         else (Inr {}, p\<lparr>location := l, prior_moves := insert l (prior_moves p)\<rparr>))
      else (Inr (unvisited board p l ps), p\<lparr>location := l, prior_moves := insert l (prior_moves p)\<rparr>))"
  using assms
  by (auto simp add: filter_moves_def set_location_def next_moves_def Let_def unvisited_def
      unoccupied_def split: list.split sum.split)



lemma take_turn_fallback_raises:
  assumes pos: "positions_key gs = Some ps" "map_of ps (player_id p) = Some l"
    and V: "unvisited board p l ps = {}" and U: "unoccupied board l ps \<noteq> {}"
    and s: "sample (unoccupied board l ps) 1 = Inl e"
  shows "\<exists>p'. take_turn board sample iter p gs = (Inl e, p')"
  using V U s by (simp add: take_turn_def filter_moves_eq[OF pos])

lemma take_turn_fallback_picks:
  assumes pos: "positions_key gs = Some ps" "map_of ps (player_id p) = Some l"
    and iter_ok: "\<forall>S. S \<subseteq> neighborhood board l 1 \<longrightarrow> set (iter S) = S"
    and V: "unvisited board p l ps = {}" and U: "unoccupied board l ps \<noteq> {}"
    and s: "sample (unoccupied board l ps) 1 = Inr [x]" and x: "x \<in> unoccupied board l ps"
  shows "\<exists>p'. take_turn board sample iter p gs = (Inr x, p')"
proof -
  have "{x} \<subseteq> neighborhood board l 1" using x by (auto simp: unoccupied_def)
  then have "set (iter {x}) = {x}" using iter_ok by blast
  then obtain ms where it: "iter {x} = x # ms" by (cases "iter {x}") auto
  with V U s show ?thesis
    by (simp add: take_turn_def filter_moves_eq[OF pos] make_move_def make_move_loop_hd)
qed

lemma corner_neighborhood: "neighborhood corner_board ''Hallway_02'' 1 = {''Hall'', ''Lounge''}"
  by (simp add: corner_board_def)

lemma corner_iter_ok:
  "\<forall>S. S \<subseteq> neighborhood corner_board ''Hallway_02'' 1 \<longrightarrow> set (corner_iter S) = S"
  unfolding corner_neighborhood by (auto simp: corner_iter_def)




text \<open>
  Claim C9, the failing input: the player stands in the hallway, has been to the hall
  and the lounge, its two neighbours, and nobody occupies either. No unoccupied
  neighbour is unvisited, so the fallback draws from the set of the two with
  \<open>random.sample\<close>. On Python 3.11 and later that call raises \<open>TypeError\<close> for a set,
  and so does \<open>take_turn\<close>: no move is returned. Where the call still accepts a set
  (up to Python 3.10) the location drawn is returned, here the hall.
\<close>

theorem fallback_raises:
  "unvisited corner_board returning ''Hallway_02'' [(''p01'', ''Hallway_02'')] = {} \<and>
   unoccupied corner_board ''Hallway_02'' [(''p01'', ''Hallway_02'')] = {''Hall'', ''Lounge''} \<and>
   fst (take_turn corner_board sample_of_set corner_iter returning
          (turn_request [(''p01'', ''Hallway_02'')])) = Inl TypeError \<and>
   fst (take_turn corner_board corner_sample corner_iter returning
          (turn_request [(''p01'', ''Hallway_02'')])) = Inr ''Hall''"
proof -
  let ?ps = "[(''p01'', ''Hallway_02'')]"
  have h1: "positions_key (turn_request ?ps) = Some ?ps" by (simp add: turn_request_def)
  have h2: "map_of ?ps (player_id returning) = Some ''Hallway_02''"
    by (simp add: returning_def scarlet_def)
  have U: "unoccupied corner_board ''Hallway_02'' ?ps = {''Hall'', ''Lounge''}"
    unfolding unoccupied_def corner_neighborhood by auto
  have V: "unvisited corner_board returning ''Hallway_02'' ?ps = {}"
    unfolding unvisited_def U by (auto simp: returning_def)
  have U0: "unoccupied corner_board ''Hallway_02'' ?ps \<noteq> {}" unfolding U by simp
  have s1: "sample_of_set (unoccupied corner_board ''Hallway_02'' ?ps) 1 = Inl TypeError"
    by (simp add: sample_of_set_def)
  have s2: "corner_sample (unoccupied corner_board ''Hallway_02'' ?ps) 1 = Inr [''Hall'']"
    unfolding U by (simp add: corner_sample_def corner_iter_def)
  have x: "''Hall'' \<in> unoccupied corner_board ''Hallway_02'' ?ps" unfolding U by simp
  from take_turn_fallback_raises[where board = corner_board and sample = sample_of_set
      and iter = corner_iter, OF h1 h2 V U0 s1]
  have r1: "fst (take_turn corner_board sample_of_set corner_iter returning (turn_request ?ps)) =
      Inl TypeError" by auto
  from take_turn_fallback_picks[where board = corner_board and sample = corner_sample
      and iter = corner_iter, OF h1 h2 corner_iter_ok V U0 s2 x]
  have r2: "fst (take_turn corner_board corner_sample corner_iter returning (turn_request ?ps)) =
      Inr ''Hall''" by auto
  show ?thesis by (intro conjI V U r1 r2)
qed

subsection \<open>The accusation analysis on a well-formed pad\<close>

lemma scan_players_ok:
  "\<forall>k \<in> set keys. \<exists>t. get_player_table pd k = Inr t \<and> c \<in> set (axes0 t) \<Longrightarrow>
   \<exists>r. scan_players pd c keys i acc = Inr r"
  by (induction keys arbitrary: i acc) (auto simp: c1_get_def)

lemma scan_cards_ok:
  "\<forall>c \<in> set cs. \<forall>k \<in> set (map fst (player_pad pd)).
      \<exists>t. get_player_table pd k = Inr t \<and> c \<in> set (axes0 t) \<Longrightarrow>
   \<exists>r. scan_cards pd cs acc = Inr r"
proof (induction cs arbitrary: acc)
  case Nil
  then show ?case by simp
next
  case (Cons c cs)
  then obtain r where "scan_players pd c (map fst (player_pad pd)) 0 acc = Inr r"
    using scan_players_ok[of "map fst (player_pad pd)" pd c 0 acc] by auto
  with Cons show ?case by simp
qed

lemma analyze_ok:
  assumes "pad_ok (player_id p) (pad p)"
  shows "\<exists>r. analyze_table_to_accuse p = Inr r"
proof -
  obtain t where t: "get_player_table (pad p) (player_id p) = Inr t"
    using assms key_get_Inr unfolding pad_ok_def by blast
  have "\<forall>c \<in> set (axes0 t). \<forall>k \<in> set (map fst (player_pad (pad p))).
      \<exists>t'. get_player_table (pad p) k = Inr t' \<and> c \<in> set (axes0 t')"
  proof (intro ballI)
    fix c k assume c: "c \<in> set (axes0 t)" and k: "k \<in> set (map fst (player_pad (pad p)))"
    obtain t' where t': "get_player_table (pad p) k = Inr t'" using key_get_Inr[OF k] by blast
    have "set (axes0 t) = set (axes0 t')"
      using assms t t' k unfolding pad_ok_def by blast
    with c t' show "\<exists>t'. get_player_table (pad p) k = Inr t' \<and> c \<in> set (axes0 t')" by auto
  qed
  then obtain u where "scan_cards (pad p) (axes0 t) {} = Inr u"
    using scan_cards_ok by blast
  with t show ?thesis by (simp add: analyze_table_to_accuse_def get_unknown_cards_def)
qed

lemma pad_ok_transfer:
  assumes "pad_ok pid pd"
    and "map fst (player_pad pd') = map fst (player_pad pd)"
    and "players_list pd' = players_list pd"
    and "\<And>k t'. get_player_table pd' k = Inr t' \<Longrightarrow>
           \<exists>t. get_player_table pd k = Inr t \<and> axes0 t' = axes0 t"
  shows "pad_ok pid pd'"
  unfolding pad_ok_def
proof (intro conjI ballI allI impI)
  show "pid \<in> set (map fst (player_pad pd'))" using assms(1,2) by (simp add: pad_ok_def)
  show "set (players_list pd') = set (map fst (player_pad pd'))"
    using assms(1,2,3) by (simp add: pad_ok_def)
next
  fix k k' t t'
  assume k: "k \<in> set (map fst (player_pad pd'))" and k': "k' \<in> set (map fst (player_pad pd'))"
    and t: "get_player_table pd' k = Inr t" and t': "get_player_table pd' k' = Inr t'"
  obtain s where s: "get_player_table pd k = Inr s" "axes0 t = axes0 s" using assms(4)[OF t] by blast
  obtain s' where s': "get_player_table pd k' = Inr s'" "axes0 t' = axes0 s'" using assms(4)[OF t'] by blast
  have "set (axes0 s) = set (axes0 s')"
    using assms(1) k k' s(1) s'(1) unfolding pad_ok_def assms(2)[symmetric] by blast
  with s s' show "set (axes0 t) = set (axes0 t')" by simp
qed

lemma pad_ok_put:
  assumes "pad_ok pid pd" and "get_player_table pd k = Inr t" and "axes0 t' = axes0 t"
  shows "pad_ok pid (put_player_table pd k t')"
proof (rule pad_ok_transfer[OF assms(1)])
  show "map fst (player_pad (put_player_table pd k t')) = map fst (player_pad pd)"
    using keys_put[OF get_Inr_key[OF assms(2)]] .
  show "players_list (put_player_table pd k t') = players_list pd" by (rule players_list_put)
  fix q s assume "get_player_table (put_player_table pd k t') q = Inr s"
  then show "\<exists>t. get_player_table pd q = Inr t \<and> axes0 s = axes0 t"
    using assms(2,3) by (cases "q = k") (auto simp: get_put_same get_put_other)
qed

lemma update_answer_eq:
  assumes "\<forall>sg. suggestion_key gs = Some sg \<longrightarrow> to_player_key sg \<noteq> Some (player_id p)"
    and "answer_key gs = Some a"
    and "mark_pad p h gs = (Inr acc, p', h')"
  shows "update p h gs =
           (Inr (case acc of None \<Rightarrow> Turn_Complete
                 | Some cs \<Rightarrow> if cs = {} then Turn_Complete else Accusation (player_id p) cs),
            p', h')"
  using assms by (cases "suggestion_key gs"; cases acc) (simp_all add: update_def)

subsection \<open>A directed reveal\<close>

lemma clear_c2_loop_eq:
  "\<forall>k \<in> set pls. \<exists>t. get_player_table pd k = Inr t \<and> c \<in> set (axes0 t) \<Longrightarrow>
   \<exists>pd'. clear_c2_loop pd c pls = (Inr (), pd') \<and>
         map fst (player_pad pd') = map fst (player_pad pd) \<and>
         players_list pd' = players_list pd \<and>
         (\<forall>k. get_player_table pd' k =
            (if k \<in> set pls
             then (case get_player_table pd k of Inl e \<Rightarrow> Inl e | Inr t \<Rightarrow> Inr (c2_put t c {}))
             else get_player_table pd k))"
proof (induction pls arbitrary: pd)
  case Nil
  then show ?case by simp
next
  case (Cons pl pls)
  then obtain tbl where tbl: "get_player_table pd pl = Inr tbl" "c \<in> set (axes0 tbl)" by auto
  let ?pd2 = "put_player_table pd pl (c2_put tbl c {})"
  have get2: "\<And>k. get_player_table ?pd2 k =
      (if k = pl then Inr (c2_put tbl c {}) else get_player_table pd k)"
    by (simp add: get_put_same get_put_other)
  have "\<forall>k \<in> set pls. \<exists>t. get_player_table ?pd2 k = Inr t \<and> c \<in> set (axes0 t)"
    using Cons.prems tbl by (auto simp: get2 c2_put_simps)
  from Cons.IH[OF this] obtain pd' where pd':
    "clear_c2_loop ?pd2 c pls = (Inr (), pd')"
    "map fst (player_pad pd') = map fst (player_pad ?pd2)"
    "players_list pd' = players_list ?pd2"
    "\<forall>k. get_player_table pd' k =
            (if k \<in> set pls
             then (case get_player_table ?pd2 k of Inl e \<Rightarrow> Inl e | Inr t \<Rightarrow> Inr (c2_put t c {}))
             else get_player_table ?pd2 k)"
    by blast
  have keys: "map fst (player_pad ?pd2) = map fst (player_pad pd)"
    using keys_put[OF get_Inr_key[OF tbl(1)]] .
  have "clear_c2_loop pd c (pl # pls) = (Inr (), pd')"
    using tbl pd'(1) by (simp add: c2_get_def)
  moreover have "\<forall>k. get_player_table pd' k =
            (if k \<in> set (pl # pls)
             then (case get_player_table pd k of Inl e \<Rightarrow> Inl e | Inr t \<Rightarrow> Inr (c2_put t c {}))
             else get_player_table pd k)"
    using pd'(4) tbl(1) by (simp add: get2 c2_put_idem)
  ultimately show ?case using pd'(2,3) keys by (simp add: players_list_put)
qed

text \<open>
  Claim C4, as amended: when \<open>update\<close> receives an answer that names a card \<open>c\<close> and
  carries no \<open>has_card\<close> key (the directed answer of the source's examples), and the
  payload holds no suggestion addressed to this player, the call succeeds and every
  tracked player's table changes as follows and in no other way: column 1 of the
  responding player's table is 1 at \<open>c\<close>, and column 2 at \<open>c\<close> is empty in every
  table; the tracked players, the index of every table, the rest of the player and
  the heap are as before.
\<close>

theorem directed_reveal:
  assumes ok: "pad_ok (player_id p) (pad p)"
    and nosug: "\<forall>sg. suggestion_key gs = Some sg \<longrightarrow> to_player_key sg \<noteq> Some (player_id p)"
    and ans: "answer_key gs = Some a" "has_card_key a = None" "card_key a = Some c"
    and tbl: "get_player_table (pad p) (from_player_key a) = Inr tbl" "c \<in> set (axes0 tbl)"
  shows "\<exists>r p'. update p h gs = (Inr r, p', h) \<and> p' = p\<lparr>pad := pad p'\<rparr> \<and>
           map fst (player_pad (pad p')) = map fst (player_pad (pad p)) \<and>
           (\<forall>q. get_player_table (pad p') q =
              (case get_player_table (pad p) q of
                 Inl e \<Rightarrow> Inl e
               | Inr t \<Rightarrow>
                   Inr (t\<lparr>c1 := (if q = from_player_key a then (c1 t)(c := 1) else c1 t),
                          c2 := (c2 t)(c := {})\<rparr>)))"
proof -
  let ?P = "from_player_key a"
  let ?pd = "pad p"
  let ?tbl1 = "tbl\<lparr>c1 := (c1 tbl)(c := 1)\<rparr>"
  let ?pd1 = "put_player_table ?pd ?P ?tbl1"
  have Pkey: "?P \<in> set (map fst (player_pad ?pd))" using get_Inr_key[OF tbl(1)] .
  have get1: "\<And>k. get_player_table ?pd1 k = (if k = ?P then Inr ?tbl1 else get_player_table ?pd k)"
    by (simp add: get_put_same get_put_other)
  have keys1: "map fst (player_pad ?pd1) = map fst (player_pad ?pd)" using keys_put[OF Pkey] .
  have pl1: "players_list ?pd1 = players_list ?pd" by (rule players_list_put)
  have pre: "\<forall>k \<in> set (players_list ?pd1). \<exists>t. get_player_table ?pd1 k = Inr t \<and> c \<in> set (axes0 t)"
  proof
    fix k assume "k \<in> set (players_list ?pd1)"
    then have k: "k \<in> set (map fst (player_pad ?pd))" using ok pl1 by (simp add: pad_ok_def)
    then obtain t where t: "get_player_table ?pd k = Inr t" using key_get_Inr by blast
    have "set (axes0 t) = set (axes0 tbl)" using ok k Pkey t tbl(1) unfolding pad_ok_def by blast
    with t tbl(2) show "\<exists>t. get_player_table ?pd1 k = Inr t \<and> c \<in> set (axes0 t)"
      by (simp add: get1)
  qed
  from clear_c2_loop_eq[OF pre] obtain pd' where pd':
    "clear_c2_loop ?pd1 c (players_list ?pd1) = (Inr (), pd')"
    "map fst (player_pad pd') = map fst (player_pad ?pd1)"
    "players_list pd' = players_list ?pd1"
    "\<forall>k. get_player_table pd' k =
            (if k \<in> set (players_list ?pd1)
             then (case get_player_table ?pd1 k of Inl e \<Rightarrow> Inl e | Inr t \<Rightarrow> Inr (c2_put t c {}))
             else get_player_table ?pd1 k)"
    by blast
  have final: "get_player_table pd' q =
              (case get_player_table ?pd q of
                 Inl e \<Rightarrow> Inl e
               | Inr t \<Rightarrow>
                   Inr (t\<lparr>c1 := (if q = ?P then (c1 t)(c := 1) else c1 t),
                          c2 := (c2 t)(c := {})\<rparr>))" for q
  proof (cases "q \<in> set (map fst (player_pad ?pd))")
    case True
    then have "q \<in> set (players_list ?pd1)" using ok pl1 by (simp add: pad_ok_def)
    then show ?thesis using pd'(4) tbl(1) by (simp add: get1 c2_put_def split: sum.split)
  next
    case False
    then have nq: "q \<notin> set (players_list ?pd1)" using ok pl1 by (simp add: pad_ok_def)
    have "q \<noteq> ?P" using False Pkey by auto
    moreover have "\<exists>e. get_player_table ?pd q = Inl e"
      using False get_Inr_key[of ?pd q] by (cases "get_player_table ?pd q") auto
    ultimately show ?thesis using pd'(4) nq by (auto simp: get1)
  qed
  let ?p2 = "p\<lparr>pad := pd'\<rparr>"
  have "pad_ok (player_id p) pd'"
  proof (rule pad_ok_transfer[OF ok])
    show "map fst (player_pad pd') = map fst (player_pad ?pd)" using pd'(2) keys1 by simp
    show "players_list pd' = players_list ?pd" using pd'(3) pl1 by simp
    fix k t' assume "get_player_table pd' k = Inr t'"
    then show "\<exists>t. get_player_table ?pd k = Inr t \<and> axes0 t' = axes0 t"
      unfolding final by (cases "get_player_table ?pd k") auto
  qed
  then have "pad_ok (player_id ?p2) (pad ?p2)" by simp
  from analyze_ok[OF this] obtain acc where acc: "analyze_table_to_accuse ?p2 = Inr acc" by blast
  have "mark_pad p h gs = (Inr acc, ?p2, h)"
    using ans tbl pd'(1) acc by (simp add: mark_pad_def c1_set_def clear_c2_cells_def)
  from update_answer_eq[OF nosug ans(1) this] show ?thesis
    using final pd'(2) keys1 by auto
qed

lemma pad_ok_noted: "pad_ok (player_id noted_player) (pad noted_player)"
  by (auto simp: pad_ok_def noted_player_def scarlet_def noted_pad_def get_player_table_def)

theorem directed_reveal_witness:
  "pad_ok (player_id noted_player) (pad noted_player) \<and>
   suggestion_key (reveal ''p02'' ''Rope'') = None \<and>
   answer_key (reveal ''p02'' ''Rope'') =
     Some \<lparr>from_player_key = ''p02'', has_card_key = None, card_key = Some ''Rope''\<rparr> \<and>
   c1_of noted_player ''p02'' ''Rope'' = 0 \<and>
   c2_of noted_player ''p02'' ''Rope'' = {1} \<and> c2_of noted_player ''p03'' ''Rope'' = {1} \<and>
   (\<exists>r p'. update noted_player [] (reveal ''p02'' ''Rope'') = (Inr r, p', []) \<and>
      c1_of p' ''p02'' ''Rope'' = 1 \<and> c1_of p' ''p02'' ''Knife'' = 0 \<and>
      c1_of p' ''p03'' ''Rope'' = 0 \<and>
      c2_of p' ''p02'' ''Rope'' = {} \<and> c2_of p' ''p03'' ''Rope'' = {} \<and>
      c2_of p' ''p02'' ''Mustard'' = {1} \<and> c2_of p' ''p03'' ''Knife'' = {1})"
proof -
  let ?a = "\<lparr>from_player_key = ''p02'', has_card_key = None, card_key = Some ''Rope''\<rparr>"
  let ?gs = "reveal ''p02'' ''Rope''"
  let ?t2 = "blank_table\<lparr>c2 := (\<lambda>c. if c \<in> {''Mustard'', ''Rope'', ''Study''} then {1} else {})\<rparr>"
  let ?t3 = "blank_table\<lparr>c2 := (\<lambda>c. if c \<in> {''Rope'', ''Knife'', ''Hall''} then {1} else {})\<rparr>"
  have ns: "suggestion_key ?gs = None" by (simp add: reveal_def)
  then have nosug: "\<forall>sg. suggestion_key ?gs = Some sg \<longrightarrow>
      to_player_key sg \<noteq> Some (player_id noted_player)"
    by simp
  have ans: "answer_key ?gs = Some ?a" by (simp add: reveal_def)
  have hc: "has_card_key ?a = None" and ck: "card_key ?a = Some ''Rope''" by simp_all
  have g2: "get_player_table (pad noted_player) ''p02'' = Inr ?t2"
    by (simp add: noted_player_def noted_pad_def get_player_table_def)
  have g3: "get_player_table (pad noted_player) ''p03'' = Inr ?t3"
    by (simp add: noted_player_def noted_pad_def get_player_table_def)
  have tblA: "get_player_table (pad noted_player) (from_player_key ?a) = Inr ?t2"
    using g2 by simp
  have idx: "''Rope'' \<in> set (axes0 ?t2)" by (simp add: blank_table_def clue_deck_def)
  have b: "c1_of noted_player ''p02'' ''Rope'' = 0" "c2_of noted_player ''p02'' ''Rope'' = {1}"
    "c2_of noted_player ''p03'' ''Rope'' = {1}"
    by (simp_all add: c1_of_def c2_of_def g2 g3 blank_table_def)
  from directed_reveal[OF pad_ok_noted nosug ans hc ck tblA idx, of "[]"]
  obtain r p' where r: "update noted_player [] ?gs = (Inr r, p', [])"
    "\<forall>q. get_player_table (pad p') q =
              (case get_player_table (pad noted_player) q of
                 Inl e \<Rightarrow> Inl e
               | Inr t \<Rightarrow>
                   Inr (t\<lparr>c1 := (if q = from_player_key ?a then (c1 t)(''Rope'' := 1) else c1 t),
                          c2 := (c2 t)(''Rope'' := {})\<rparr>))"
    by blast
  have n2: "get_player_table (pad p') ''p02'' =
      Inr (?t2\<lparr>c1 := (c1 ?t2)(''Rope'' := 1), c2 := (c2 ?t2)(''Rope'' := {})\<rparr>)"
    using r(2) g2 by simp
  have n3: "get_player_table (pad p') ''p03'' =
      Inr (?t3\<lparr>c1 := c1 ?t3, c2 := (c2 ?t3)(''Rope'' := {})\<rparr>)"
    using r(2) g3 by simp
  have a: "c1_of p' ''p02'' ''Rope'' = 1" "c1_of p' ''p02'' ''Knife'' = 0"
    "c1_of p' ''p03'' ''Rope'' = 0"
    "c2_of p' ''p02'' ''Rope'' = {}" "c2_of p' ''p03'' ''Rope'' = {}"
    "c2_of p' ''p02'' ''Mustard'' = {1}" "c2_of p' ''p03'' ''Knife'' = {1}"
    by (simp_all add: c1_of_def c2_of_def n2 n3 blank_table_def)
  have "\<exists>r p'. update noted_player [] ?gs = (Inr r, p', []) \<and>
      c1_of p' ''p02'' ''Rope'' = 1 \<and> c1_of p' ''p02'' ''Knife'' = 0 \<and>
      c1_of p' ''p03'' ''Rope'' = 0 \<and>
      c2_of p' ''p02'' ''Rope'' = {} \<and> c2_of p' ''p03'' ''Rope'' = {} \<and>
      c2_of p' ''p02'' ''Mustard'' = {1} \<and> c2_of p' ''p03'' ''Knife'' = {1}"
    using r(1) a by blast
  with pad_ok_noted ns ans b show ?thesis by blast
qed

lemma denial_keeps_player:
  assumes "answer_key gs = Some a" and "has_card_key a = Some False"
  shows "fst (snd (update p h gs)) = p"
  using assms
  by (auto simp: update_def mark_pad_def answer_def Let_def
      split: option.split sum.split prod.split)

text \<open>
  Claim C4, the counterexample: an answer can name a card and carry a \<open>has_card\<close> flag
  as well, and then the card is not recorded. Player \<open>p02\<close> names the rope. With the
  flag false the call leaves the player as it was, so column 1 of \<open>p02\<close> is still 0
  at the rope. With the flag true the call takes the undirected branch, finds no list
  of cards in the payload and raises \<open>KeyError\<close>, again with column 1 of \<open>p02\<close> still
  0 at the rope.
\<close>

theorem flagged_reveal_not_recorded:
  "c1_of scarlet ''p02'' ''Rope'' = 0 \<and>
   fst (snd (update scarlet [] (flagged_reveal ''p02'' False ''Rope''))) = scarlet \<and>
   c1_of (fst (snd (update scarlet [] (flagged_reveal ''p02'' False ''Rope'')))) ''p02'' ''Rope'' = 0 \<and>
   update scarlet [] (flagged_reveal ''p02'' True ''Rope'') = (Inl KeyError, scarlet, []) \<and>
   c1_of (fst (snd (update scarlet [] (flagged_reveal ''p02'' True ''Rope'')))) ''p02'' ''Rope'' = 0"
proof -
  have g: "get_player_table (pad scarlet) ''p02'' = Inr blank_table"
    by (simp add: scarlet_def get_blank_pad)
  have c: "c1_of scarlet ''p02'' ''Rope'' = 0" by (simp add: c1_of_def g blank_table_def)
  have f: "fst (snd (update scarlet [] (flagged_reveal ''p02'' False ''Rope''))) = scarlet"
    by (rule denial_keeps_player[of _ "\<lparr>from_player_key = ''p02'', has_card_key = Some False,
          card_key = Some ''Rope''\<rparr>"]) (simp_all add: flagged_reveal_def)
  have t: "update scarlet [] (flagged_reveal ''p02'' True ''Rope'') = (Inl KeyError, scarlet, [])"
    by (simp add: update_def mark_pad_def flagged_reveal_def g)
  show ?thesis by (simp add: c f t)
qed

subsection \<open>An undirected signal\<close>

lemma mark_has_card_eq:
  assumes "x \<in> set (axes0 tbl)" "y \<in> set (axes0 tbl)" "z \<in> set (axes0 tbl)"
    and "b < length h" and "h ! b = pre @ [z, y, x]"
  shows "mark_has_card tbl h b =
           (Inr (tbl\<lparr>c2 := (\<lambda>d. if d = x \<or> d = y \<or> d = z
                                then insert (new_entry (c2 tbl x) (c2 tbl y) (c2 tbl z)) (c2 tbl d)
                                else c2 tbl d)\<rparr>), h[b := pre])"
proof -
  have p1: "list_pop h b = Inr (x, h[b := pre @ [z, y]])"
    using assms(5) by (simp add: list_pop_def butlast_append)
  have p2: "list_pop (h[b := pre @ [z, y]]) b = Inr (y, h[b := pre @ [z]])"
    using assms(4) by (simp add: list_pop_def butlast_append)
  have p3: "list_pop (h[b := pre @ [z]]) b = Inr (z, h[b := pre])"
    using assms(4) by (simp add: list_pop_def)
  show ?thesis
    using assms(1,2,3)
    by (auto simp: mark_has_card_def p1 p2 p3 c2_get_def c2_put_def Let_def fun_eq_iff)
qed

lemma undirected_update:
  assumes ok: "pad_ok (player_id p) (pad p)"
    and nosug: "\<forall>sg. suggestion_key gs = Some sg \<longrightarrow> to_player_key sg \<noteq> Some (player_id p)"
    and ans: "answer_key gs = Some a" "has_card_key a = Some True"
    and cs: "cards_key gs = Some ref" "h ! ref = pre @ [z, y, x]" "ref < length h"
    and tbl: "get_player_table (pad p) (from_player_key a) = Inr tbl"
    and idx: "x \<in> set (axes0 tbl)" "y \<in> set (axes0 tbl)" "z \<in> set (axes0 tbl)"
  shows "\<exists>r. update p h gs =
           (Inr r,
            p\<lparr>pad := put_player_table (pad p) (from_player_key a)
                 (tbl\<lparr>c2 := (\<lambda>d. if d = x \<or> d = y \<or> d = z
                              then insert (new_entry (c2 tbl x) (c2 tbl y) (c2 tbl z)) (c2 tbl d)
                              else c2 tbl d)\<rparr>)\<rparr>, h @ [pre])"
proof -
  let ?P = "from_player_key a"
  let ?tbl' = "tbl\<lparr>c2 := (\<lambda>d. if d = x \<or> d = y \<or> d = z
                              then insert (new_entry (c2 tbl x) (c2 tbl y) (c2 tbl z)) (c2 tbl d)
                              else c2 tbl d)\<rparr>"
  let ?p' = "p\<lparr>pad := put_player_table (pad p) ?P ?tbl'\<rparr>"
  have "pad_ok (player_id p) (put_player_table (pad p) ?P ?tbl')"
    by (rule pad_ok_put[OF ok tbl]) simp
  then have "pad_ok (player_id ?p') (pad ?p')" by simp
  from analyze_ok[OF this] obtain acc where acc: "analyze_table_to_accuse ?p' = Inr acc" by blast
  have cp: "list_copy h ref = (length h, h @ [pre @ [z, y, x]])"
    using cs(2) by (simp add: list_copy_def)
  have mh: "mark_has_card tbl (h @ [pre @ [z, y, x]]) (length h) = (Inr ?tbl', h @ [pre])"
    using mark_has_card_eq[OF idx, of "length h" "h @ [pre @ [z, y, x]]" pre] by simp
  have "mark_pad p h gs = (Inr acc, ?p', h @ [pre])"
    using ans cs(1) tbl acc by (simp add: mark_pad_def cp mh Let_def)
  from update_answer_eq[OF nosug ans(1) this] show ?thesis by blast
qed

lemma signal_step:
  assumes "pad_ok (player_id p) (pad p)" and "get_player_table (pad p) P = Inr tbl"
    and "x \<in> set (axes0 tbl)" "y \<in> set (axes0 tbl)" "z \<in> set (axes0 tbl)"
    and "h ! ref = [z, y, x]" and "ref < length h"
  shows "run_updates p h (has_card_signal P ref # rest) =
           run_updates
             (p\<lparr>pad := put_player_table (pad p) P
                (tbl\<lparr>c2 := (\<lambda>d. if d = x \<or> d = y \<or> d = z
                              then insert (new_entry (c2 tbl x) (c2 tbl y) (c2 tbl z)) (c2 tbl d)
                              else c2 tbl d)\<rparr>)\<rparr>)
             (h @ [[]]) rest"
  using undirected_update[of p "has_card_signal P ref"
      "\<lparr>from_player_key = P, has_card_key = Some True, card_key = None\<rparr>" ref h "[]" z y x tbl]
    assms
  by (auto simp: has_card_signal_def)

text \<open>
  Claim C2, the failing input: the token is not unique per response event, and it
  need not be new to the cells it is added to. Player \<open>p02\<close> answers four suggestions
  with an undirected signal. The second response (Mustard, knife, hall) adds the
  token 2 to the knife. The third response (rope, wrench, lounge) adds the token 2
  again, to the wrench: one token for two responses of the same player, linking the
  knife and the wrench, which were never suggested together. The fourth response
  (knife, wrench, library) gets the token 2 once more: the knife and the wrench hold
  it already, so the response leaves no mark of its own on them.
\<close>

theorem token_reused:
  "c2_of (fst (run_updates scarlet signal_heap (take 1 four_signals))) ''p02'' ''Knife'' = {} \<and>
   c2_of (fst (run_updates scarlet signal_heap (take 2 four_signals))) ''p02'' ''Knife'' = {2} \<and>
   c2_of (fst (run_updates scarlet signal_heap (take 2 four_signals))) ''p02'' ''Wrench'' = {} \<and>
   c2_of (fst (run_updates scarlet signal_heap (take 3 four_signals))) ''p02'' ''Wrench'' = {2} \<and>
   c2_of (fst (run_updates scarlet signal_heap (take 3 four_signals))) ''p02'' ''Knife'' = {2} \<and>
   c2_of (fst (run_updates scarlet signal_heap (take 3 four_signals))) ''p02'' ''Library'' = {} \<and>
   c2_of (fst (run_updates scarlet signal_heap four_signals)) ''p02'' ''Library'' = {2} \<and>
   c2_of (fst (run_updates scarlet signal_heap four_signals)) ''p02'' ''Knife'' = {2} \<and>
   c2_of (fst (run_updates scarlet signal_heap four_signals)) ''p02'' ''Wrench'' = {2}"
proof -
  define T1 where "T1 = blank_table\<lparr>c2 := (\<lambda>d. if d = ''Study'' \<or> d = ''Rope'' \<or> d = ''Mustard''
      then insert (new_entry (c2 blank_table ''Study'') (c2 blank_table ''Rope'')
                     (c2 blank_table ''Mustard'')) (c2 blank_table d)
      else c2 blank_table d)\<rparr>"
  define T2 where "T2 = T1\<lparr>c2 := (\<lambda>d. if d = ''Hall'' \<or> d = ''Knife'' \<or> d = ''Mustard''
      then insert (new_entry (c2 T1 ''Hall'') (c2 T1 ''Knife'') (c2 T1 ''Mustard'')) (c2 T1 d)
      else c2 T1 d)\<rparr>"
  define T3 where "T3 = T2\<lparr>c2 := (\<lambda>d. if d = ''Lounge'' \<or> d = ''Wrench'' \<or> d = ''Rope''
      then insert (new_entry (c2 T2 ''Lounge'') (c2 T2 ''Wrench'') (c2 T2 ''Rope'')) (c2 T2 d)
      else c2 T2 d)\<rparr>"
  define T4 where "T4 = T3\<lparr>c2 := (\<lambda>d. if d = ''Library'' \<or> d = ''Wrench'' \<or> d = ''Knife''
      then insert (new_entry (c2 T3 ''Library'') (c2 T3 ''Wrench'') (c2 T3 ''Knife'')) (c2 T3 d)
      else c2 T3 d)\<rparr>"
  define s1 where "s1 = scarlet\<lparr>pad := put_player_table (pad scarlet) ''p02'' T1\<rparr>"
  define s2 where "s2 = s1\<lparr>pad := put_player_table (pad s1) ''p02'' T2\<rparr>"
  define s3 where "s3 = s2\<lparr>pad := put_player_table (pad s2) ''p02'' T3\<rparr>"
  define s4 where "s4 = s3\<lparr>pad := put_player_table (pad s3) ''p02'' T4\<rparr>"
  define h1 where "h1 = signal_heap @ [[]]"
  define h2 where "h2 = h1 @ [[]]"
  define h3 where "h3 = h2 @ [[]]"
  have ax: "axes0 T1 = axes0 blank_table" "axes0 T2 = axes0 T1" "axes0 T3 = axes0 T2"
    by (simp_all add: T1_def T2_def T3_def)
  have deck: "''Study'' \<in> set (axes0 blank_table)" "''Rope'' \<in> set (axes0 blank_table)"
    "''Mustard'' \<in> set (axes0 blank_table)" "''Hall'' \<in> set (axes0 blank_table)"
    "''Knife'' \<in> set (axes0 blank_table)" "''Lounge'' \<in> set (axes0 blank_table)"
    "''Wrench'' \<in> set (axes0 blank_table)" "''Library'' \<in> set (axes0 blank_table)"
    by (simp_all add: blank_table_def clue_deck_def)
  have heap: "signal_heap ! 0 = [''Mustard'', ''Rope'', ''Study'']" "0 < length signal_heap"
    "h1 ! 1 = [''Mustard'', ''Knife'', ''Hall'']" "1 < length h1"
    "h2 ! 2 = [''Rope'', ''Wrench'', ''Lounge'']" "2 < length h2"
    "h3 ! 3 = [''Knife'', ''Wrench'', ''Library'']" "3 < length h3"
    by (simp_all add: h1_def h2_def h3_def signal_heap_def nth_append)
  have ok0: "pad_ok (player_id scarlet) (pad scarlet)" by (simp add: scarlet_def pad_ok_blank)
  have t0: "get_player_table (pad scarlet) ''p02'' = Inr blank_table"
    by (simp add: scarlet_def get_blank_pad)
  have u1: "run_updates scarlet signal_heap (has_card_signal ''p02'' 0 # rest) =
      run_updates s1 h1 rest" for rest
    unfolding s1_def T1_def h1_def by (rule signal_step[OF ok0 t0 deck(1,2,3) heap(1,2)])
  have ok1: "pad_ok (player_id s1) (pad s1)"
    using pad_ok_put[OF ok0 t0 ax(1)] by (simp add: s1_def)
  have t1: "get_player_table (pad s1) ''p02'' = Inr T1" by (simp add: s1_def get_put_same)
  have u2: "run_updates s1 h1 (has_card_signal ''p02'' 1 # rest) = run_updates s2 h2 rest" for rest
    unfolding s2_def T2_def h2_def using deck heap(3,4)
    by (intro signal_step[OF ok1 t1]) (simp_all add: ax)
  have ok2: "pad_ok (player_id s2) (pad s2)"
    using pad_ok_put[OF ok1 t1 ax(2)] by (simp add: s2_def)
  have t2: "get_player_table (pad s2) ''p02'' = Inr T2" by (simp add: s2_def get_put_same)
  have u3: "run_updates s2 h2 (has_card_signal ''p02'' 2 # rest) = run_updates s3 h3 rest" for rest
    unfolding s3_def T3_def h3_def using deck heap(5,6)
    by (intro signal_step[OF ok2 t2]) (simp_all add: ax)
  have ok3: "pad_ok (player_id s3) (pad s3)"
    using pad_ok_put[OF ok2 t2 ax(3)] by (simp add: s3_def)
  have t3: "get_player_table (pad s3) ''p02'' = Inr T3" by (simp add: s3_def get_put_same)
  have u4: "run_updates s3 h3 (has_card_signal ''p02'' 3 # rest) = run_updates s4 (h3 @ [[]]) rest"
    for rest
    unfolding s4_def T4_def using deck heap(7,8)
    by (intro signal_step[OF ok3 t3]) (simp_all add: ax)
  have t4: "get_player_table (pad s4) ''p02'' = Inr T4" by (simp add: s4_def get_put_same)
  have tk: "take 1 four_signals = [has_card_signal ''p02'' 0]"
    "take 2 four_signals = [has_card_signal ''p02'' 0, has_card_signal ''p02'' 1]"
    "take 3 four_signals =
       [has_card_signal ''p02'' 0, has_card_signal ''p02'' 1, has_card_signal ''p02'' 2]"
    by (simp_all add: four_signals_def)
  have r1: "fst (run_updates scarlet signal_heap (take 1 four_signals)) = s1"
    unfolding tk u1 by simp
  have r2: "fst (run_updates scarlet signal_heap (take 2 four_signals)) = s2"
    unfolding tk u1 u2 by simp
  have r3: "fst (run_updates scarlet signal_heap (take 3 four_signals)) = s3"
    unfolding tk u1 u2 u3 by simp
  have r4: "fst (run_updates scarlet signal_heap four_signals) = s4"
    unfolding four_signals_def u1 u2 u3 u4 by simp
  have c1: "c2 T1 ''Knife'' = {}" "c2 T1 ''Hall'' = {}" "c2 T1 ''Mustard'' = {1}"
    "c2 T1 ''Wrench'' = {}" "c2 T1 ''Lounge'' = {}" "c2 T1 ''Rope'' = {1}"
    "c2 T1 ''Library'' = {}"
    by (simp_all add: T1_def blank_table_def new_entry_def)
  have c2: "c2 T2 ''Knife'' = {2}" "c2 T2 ''Wrench'' = {}" "c2 T2 ''Lounge'' = {}"
    "c2 T2 ''Rope'' = {1}" "c2 T2 ''Library'' = {}"
    by (simp_all add: T2_def c1 new_entry_def)
  have c3: "c2 T3 ''Wrench'' = {2}" "c2 T3 ''Knife'' = {2}" "c2 T3 ''Library'' = {}"
    by (simp_all add: T3_def c2 new_entry_def)
  have c4: "c2 T4 ''Library'' = {2}" "c2 T4 ''Knife'' = {2}" "c2 T4 ''Wrench'' = {2}"
    by (simp_all add: T4_def c3 new_entry_def)
  show ?thesis unfolding r1 r2 r3 r4 c2_of_def t1 t2 t3 t4 by (simp add: c1 c2 c3 c4)
qed

subsection \<open>The accusation analysis at work\<close>

lemma late_unknown_cards:
  "get_unknown_cards late_player = Inr {''Rope'', ''Wrench'', ''Kitchen'', ''Plum''}"
  by (simp add: get_unknown_cards_def get_player_table_def c1_get_def late_player_def late_pad_def
      late_table_def blank_table_def clue_deck_def)

lemma small_unknown_cards: "get_unknown_cards small_player = Inr {}"
  by (simp add: get_unknown_cards_def get_player_table_def c1_get_def small_player_def
      late_player_def small_pad_def late_table_def blank_table_def clue_deck_def)

lemma no_card_update:
  assumes "get_player_table (pad p) P = Inr t" and "analyze_table_to_accuse p = Inr None"
  shows "update p h (no_card_signal P) = (Inr Turn_Complete, p, h)"
  using assms by (simp add: update_def mark_pad_def no_card_signal_def)

text \<open>
  Claim C1, the failing inputs. On the five-player pad \<open>late_pad\<close> the cards that no
  table marks are Plum, the kitchen and the wrench, three cards, so an accusation is
  due; the scan of the source stops counting at the fourth table, takes the rope
  (held by \<open>p05\<close>, the fifth) for unknown as well, finds four cards and accuses
  nobody. On the three-player pad \<open>small_pad\<close> the same three cards are unmarked, and
  the scan, whose counter never reaches 4, finds no unknown card at all.
\<close>

theorem accusation_missed:
  "spec_unknown_cards (pad late_player) clue_deck = {''Plum'', ''Kitchen'', ''Wrench''} \<and>
   card (spec_unknown_cards (pad late_player) clue_deck) = 3 \<and>
   get_unknown_cards late_player = Inr {''Rope'', ''Wrench'', ''Kitchen'', ''Plum''} \<and>
   update late_player [] (no_card_signal ''p02'') = (Inr Turn_Complete, late_player, []) \<and>
   spec_unknown_cards (pad small_player) clue_deck = {''Plum'', ''Kitchen'', ''Wrench''} \<and>
   get_unknown_cards small_player = Inr {} \<and>
   update small_player [] (no_card_signal ''p02'') = (Inr Turn_Complete, small_player, [])"
proof -
  have s1: "spec_unknown_cards (pad late_player) clue_deck = {''Plum'', ''Kitchen'', ''Wrench''}"
    by (simp add: spec_unknown_cards_def late_player_def late_pad_def late_table_def
        blank_table_def clue_deck_def)
  have s2: "card (spec_unknown_cards (pad late_player) clue_deck) = 3" unfolding s1 by simp
  have s3: "spec_unknown_cards (pad small_player) clue_deck = {''Plum'', ''Kitchen'', ''Wrench''}"
    by (simp add: spec_unknown_cards_def small_player_def small_pad_def late_table_def
        blank_table_def clue_deck_def)
  have g1: "get_player_table (pad late_player) (player_id late_player) = Inr late_table"
    by (simp add: late_player_def late_pad_def get_player_table_def)
  have g2: "get_player_table (pad late_player) ''p02'' = Inr blank_table"
    by (simp add: late_player_def late_pad_def get_player_table_def)
  have a1: "analyze_table_to_accuse late_player = Inr None"
    by (simp add: analyze_table_to_accuse_def g1 late_unknown_cards)
  have g3: "get_player_table (pad small_player) (player_id small_player) = Inr late_table"
    by (simp add: small_player_def late_player_def small_pad_def get_player_table_def)
  have g4: "get_player_table (pad small_player) ''p02'' =
      Inr (blank_table\<lparr>c1 := (\<lambda>c. if c = ''Rope'' then 1 else 0)\<rparr>)"
    by (simp add: small_player_def small_pad_def get_player_table_def)
  have a2: "analyze_table_to_accuse small_player = Inr None"
    by (simp add: analyze_table_to_accuse_def g3 small_unknown_cards)
  show ?thesis
    by (intro conjI s1 s2 s3 late_unknown_cards small_unknown_cards
        no_card_update[OF g2 a1] no_card_update[OF g4 a2])
qed

subsection \<open>Construction\<close>

lemma init_keeps_class: "snd (init cls choice new_pad pid suspects n) = cls"
  by (simp add: init_def split: sum.split)

lemma init_first:
  assumes "player_count cls \<le> 5" and "pid \<in> set (take n seats)"
    and "map_of starting_positions s = Some l"
  shows "\<exists>pl. init cls hd seated_pad pid (s # rest) n = (Inr pl, cls) \<and> player_id pl = pid"
  using assms
  by (simp add: init_def get_player_def get_starting_location_def seated_pad_def get_blank_pad)

text \<open>
  Claim C3, the failing input: six constructions in a row, from the class as the
  module defines it (count 0). All six succeed, the sixth too, although five
  instances exist when it is attempted; and the count of the class is still 0
  afterwards, since the increment goes to the instance.
\<close>

theorem sixth_construction_succeeds:
  "map (map_sum id player_id)
     (fst (construct_all \<lparr>player_count = 0\<rparr> hd seated_pad six_constructions)) =
     [Inr ''p01'', Inr ''p02'', Inr ''p03'', Inr ''p04'', Inr ''p05'', Inr ''p06''] \<and>
   player_count (snd (construct_all \<lparr>player_count = 0\<rparr> hd seated_pad six_constructions)) = 0"
proof -
  let ?cls = "\<lparr>player_count = 0\<rparr>"
  have c: "player_count ?cls \<le> 5" by simp
  have sp: "map_of starting_positions ''Scarlet'' = Some ''Hallway_02''"
    "map_of starting_positions ''Mustard'' = Some ''Hallway_03''"
    "map_of starting_positions ''White'' = Some ''Hallway_05''"
    "map_of starting_positions ''Green'' = Some ''Hallway_06''"
    "map_of starting_positions ''Peacock'' = Some ''Hallway_07''"
    "map_of starting_positions ''Plum'' = Some ''Hallway_08''"
    by (simp_all add: starting_positions_def)
  have st: "''p01'' \<in> set (take 6 seats)" "''p02'' \<in> set (take 6 seats)"
    "''p03'' \<in> set (take 6 seats)" "''p04'' \<in> set (take 6 seats)"
    "''p05'' \<in> set (take 6 seats)" "''p06'' \<in> set (take 6 seats)"
    by (simp_all add: seats_def)
  from init_first[OF c st(1) sp(1)] obtain p1 where
    i1: "init ?cls hd seated_pad ''p01'' [''Scarlet'', ''Mustard'', ''White'', ''Green'', ''Peacock'', ''Plum''] 6 = (Inr p1, ?cls)"
    "player_id p1 = ''p01''" by blast
  from init_first[OF c st(2) sp(2)] obtain p2 where
    i2: "init ?cls hd seated_pad ''p02'' [''Mustard'', ''White'', ''Green'', ''Peacock'', ''Plum''] 6 = (Inr p2, ?cls)"
    "player_id p2 = ''p02''" by blast
  from init_first[OF c st(3) sp(3)] obtain p3 where
    i3: "init ?cls hd seated_pad ''p03'' [''White'', ''Green'', ''Peacock'', ''Plum''] 6 = (Inr p3, ?cls)"
    "player_id p3 = ''p03''" by blast
  from init_first[OF c st(4) sp(4)] obtain p4 where
    i4: "init ?cls hd seated_pad ''p04'' [''Green'', ''Peacock'', ''Plum''] 6 = (Inr p4, ?cls)"
    "player_id p4 = ''p04''" by blast
  from init_first[OF c st(5) sp(5)] obtain p5 where
    i5: "init ?cls hd seated_pad ''p05'' [''Peacock'', ''Plum''] 6 = (Inr p5, ?cls)"
    "player_id p5 = ''p05''" by blast
  from init_first[OF c st(6) sp(6)] obtain p6 where
    i6: "init ?cls hd seated_pad ''p06'' [''Plum''] 6 = (Inr p6, ?cls)"
    "player_id p6 = ''p06''" by blast
  show ?thesis by (simp add: six_constructions_def i1 i2 i3 i4 i5 i6)
qed

subsection \<open>The lists of the caller are left as they were\<close>

lemma list_pop_keeps:
  assumes "list_pop h b = Inr (x, h')" and "n \<le> b"
  shows "take n h' = take n h"
  using assms by (auto simp: list_pop_def split: if_splits)

lemma mark_has_card_keeps:
  assumes "n \<le> b"
  shows "take n (snd (mark_has_card tbl h b)) = take n h"
proof (cases "list_pop h b")
  case (Inl e)
  then show ?thesis by (simp add: mark_has_card_def)
next
  case (Inr r1)
  obtain c1 h1 where r1: "r1 = (c1, h1)" by (cases r1)
  have k1: "take n h1 = take n h" using list_pop_keeps[OF _ assms] Inr r1 by simp
  show ?thesis
  proof (cases "list_pop h1 b")
    case (Inl e)
    then show ?thesis using Inr r1 k1 by (simp add: mark_has_card_def)
  next
    case Inr2: (Inr r2)
    obtain c2 h2 where r2: "r2 = (c2, h2)" by (cases r2)
    have k2: "take n h2 = take n h" using list_pop_keeps[OF _ assms] Inr2 r2 k1 by simp
    show ?thesis
    proof (cases "list_pop h2 b")
      case (Inl e)
      then show ?thesis using Inr r1 Inr2 r2 k2 by (simp add: mark_has_card_def)
    next
      case Inr3: (Inr r3)
      obtain c3 h3 where r3: "r3 = (c3, h3)" by (cases r3)
      have k3: "take n h3 = take n h" using list_pop_keeps[OF _ assms] Inr3 r3 k2 by simp
      show ?thesis using Inr r1 Inr2 r2 Inr3 r3 k3
        by (simp add: mark_has_card_def Let_def split: sum.split)
    qed
  qed
qed

lemma mark_pad_keeps:
  "take (length h) (snd (snd (mark_pad p h gs))) = h"
proof (cases "answer_key gs")
  case None
  then show ?thesis by (simp add: mark_pad_def)
next
  case ans: (Some ans)
  show ?thesis
  proof (cases "get_player_table (pad p) (from_player_key ans)")
    case (Inl e)
    with ans show ?thesis by (simp add: mark_pad_def)
  next
    case tbl: (Inr tbl)
    consider (undirected) "has_card_key ans = Some True"
      | (denial) "has_card_key ans = Some False"
      | (directed) "has_card_key ans \<noteq> Some True" "has_card_key ans \<noteq> Some False"
      by blast
    then show ?thesis
    proof cases
      case undirected
      show ?thesis
      proof (cases "cards_key gs")
        case None
        with ans tbl undirected show ?thesis by (simp add: mark_pad_def)
      next
        case ref: (Some a)
        obtain r h2 where m: "mark_has_card tbl (h @ [h ! a]) (length h) = (r, h2)"
          by (cases "mark_has_card tbl (h @ [h ! a]) (length h)")
        then have "take (length h) h2 = h"
          using mark_has_card_keeps[of "length h" "length h" tbl "h @ [h ! a]"] by simp
        with ans tbl undirected ref m show ?thesis
          by (cases r) (simp_all add: mark_pad_def list_copy_def Let_def)
      qed
    next
      case denial
      with ans tbl show ?thesis by (simp add: mark_pad_def)
    next
      case directed
      with ans tbl show ?thesis
        by (simp add: mark_pad_def Let_def split: option.split sum.split prod.split)
    qed
  qed
qed

text \<open>
  Claim C10: \<open>update\<close> never mutates the payload it is given. The fields of the game
  state are not assigned anywhere; the one operation that changes an object in
  place is \<open>pop\<close>, in the undirected branch, and it works on the list \<open>copy\<close> made.
  So every list object that existed before the call, the payload's list
  of cards among them, holds after the call what it held before, whatever branch
  ran and also when the call raised: the heap the call leaves behind starts with
  the heap it was given.
\<close>

theorem update_keeps_payload:
  "take (length h) (snd (snd (update p h gs))) = h \<and>
   (\<forall>a. cards_key gs = Some a \<and> a < length h \<longrightarrow> snd (snd (update p h gs)) ! a = h ! a)"
proof -
  obtain r p' h' where m: "mark_pad p h gs = (r, p', h')" by (cases "mark_pad p h gs")
  then have "take (length h) h' = h" using mark_pad_keeps[of h p gs] by simp
  with m have k: "take (length h) (snd (snd (update p h gs))) = h"
    unfolding update_def Let_def
    by (simp split: option.split sum.split prod.split)
  have "snd (snd (update p h gs)) ! a = h ! a" if "a < length h" for a
  proof -
    have "take (length h) (snd (snd (update p h gs))) ! a = snd (snd (update p h gs)) ! a"
      using that by simp
    then show ?thesis using k by simp
  qed
  with k show ?thesis by blast
qed

theorem update_keeps_payload_witness:
  "cards_key (has_card_signal ''p02'' 0) = Some 0 \<and> 0 < length signal_heap \<and>
   signal_heap ! 0 = [''Mustard'', ''Rope'', ''Study''] \<and>
   snd (snd (update scarlet signal_heap (has_card_signal ''p02'' 0))) ! 0 =
     [''Mustard'', ''Rope'', ''Study''] \<and>
   snd (snd (update scarlet signal_heap (has_card_signal ''p02'' 0))) = signal_heap @ [[]]"
proof -
  have h1: "cards_key (has_card_signal ''p02'' 0) = Some 0" by (simp add: has_card_signal_def)
  have h2: "0 < length signal_heap" by (simp add: signal_heap_def)
  have h3: "signal_heap ! 0 = [''Mustard'', ''Rope'', ''Study'']" by (simp add: signal_heap_def)
  from update_keeps_payload[of signal_heap scarlet "has_card_signal ''p02'' 0"] h1 h2
  have "snd (snd (update scarlet signal_heap (has_card_signal ''p02'' 0))) ! 0 = signal_heap ! 0"
    by blast
  then have k: "snd (snd (update scarlet signal_heap (has_card_signal ''p02'' 0))) ! 0 =
      [''Mustard'', ''Rope'', ''Study'']"
    using h3 by simp
  have ok0: "pad_ok (player_id scarlet) (pad scarlet)" by (simp add: scarlet_def pad_ok_blank)
  have t0: "get_player_table (pad scarlet) ''p02'' = Inr blank_table"
    by (simp add: scarlet_def get_blank_pad)
  have deck: "''Study'' \<in> set (axes0 blank_table)" "''Rope'' \<in> set (axes0 blank_table)"
    "''Mustard'' \<in> set (axes0 blank_table)"
    by (simp_all add: blank_table_def clue_deck_def)
  from undirected_update[of scarlet "has_card_signal ''p02'' 0"
      "\<lparr>from_player_key = ''p02'', has_card_key = Some True, card_key = None\<rparr>" 0 signal_heap
      "[]" "''Mustard''" "''Rope''" "''Study''" blank_table] ok0 t0 deck h2 h3
  have g: "snd (snd (update scarlet signal_heap (has_card_signal ''p02'' 0))) = signal_heap @ [[]]"
    by (auto simp: has_card_signal_def)
  show ?thesis by (intro conjI h1 h2 h3 k g)
qed

end
